theory Spec2Isabelle
  imports Main "HOL-Library.Sublist" "HOL-Library.Char_ord" "HOL-Library.List_Lexorder"
    "HOL-Library.AList"
begin

section \<open>pkg/utils/httpsigs: signing and validating a request\<close>

text \<open>
  The package signs a request by hashing \<open>path + time + token\<close> and storing the digest
  and the time in two headers; validation recomputes the digest and checks that the
  time lies in a window around the validator's clock.  The digest \<open>md5\<close> of the standard
  library is a parameter of the model (any function from strings to hexadecimal text);
  the clock reading \<open>time.Now()\<close> is an argument, in nanoseconds since the epoch.
\<close>

datatype sig_error =
    ErrSyntax string
  | ErrRange string
  | ErrTimeOut string int
  | ErrInvalidSignature string string string

record Signer =
  Token :: string
  Duration :: int
  WhiteList :: "string list"

record Request =
  URLPath :: string
  Header :: "string \<rightharpoonup> string"

definition headerToken :: string where
  "headerToken = ''sign-token''"

definition headerTime :: string where
  "headerTime = ''sign-time''"

text \<open>\<open>Header.Set\<close> replaces the values of a key, \<open>Header.Get\<close> returns the first value
  or the empty string; both canonicalise the key in the same way.\<close>

definition Header_Set :: "(string \<rightharpoonup> string) \<Rightarrow> string \<Rightarrow> string \<Rightarrow> (string \<rightharpoonup> string)" where
  "Header_Set h k v = h(k \<mapsto> v)"

definition Header_Get :: "(string \<rightharpoonup> string) \<Rightarrow> string \<Rightarrow> string" where
  "Header_Get h k = (case h k of None \<Rightarrow> [] | Some v \<Rightarrow> v)"

text \<open>\<open>s.IsWhiteList\<close>: a linear search of the white list.\<close>

fun IsWhiteList_loop :: "string list \<Rightarrow> string \<Rightarrow> bool" where
  "IsWhiteList_loop [] path = False"
| "IsWhiteList_loop (w # ws) path = (if w = path then True else IsWhiteList_loop ws path)"

definition IsWhiteList :: "Signer \<Rightarrow> string \<Rightarrow> bool" where
  "IsWhiteList s path = IsWhiteList_loop (WhiteList s) path"

definition AddWhiteList :: "Signer \<Rightarrow> string \<Rightarrow> Signer" where
  "AddWhiteList s path =
     (if IsWhiteList s path then s else s\<lparr>WhiteList := WhiteList s @ [path]\<rparr>)"

text \<open>\<open>strings.TrimPrefix\<close>.\<close>

definition TrimPrefix :: "string \<Rightarrow> string \<Rightarrow> string" where
  "TrimPrefix s p = (if prefix p s then drop (length p) s else s)"

text \<open>\<open>strconv.FormatInt(i, 10)\<close>: the decimal digits, with a minus sign for a negative
  number.\<close>

definition digit_char :: "nat \<Rightarrow> char" where
  "digit_char d = char_of (48 + d)"

function FormatUint :: "nat \<Rightarrow> string" where
  "FormatUint n = (if n < 10 then [digit_char n] else FormatUint (n div 10) @ [digit_char (n mod 10)])"
  by pat_completeness auto
termination
  by (relation "measure (\<lambda>n. n)") auto

declare FormatUint.simps [simp del]

definition FormatInt :: "int \<Rightarrow> string" where
  "FormatInt i = (if i < 0 then CHR ''-'' # FormatUint (nat (- i)) else FormatUint (nat i))"

text \<open>\<open>strconv.ParseInt(s, 10, 64)\<close>: an optional sign, then \<open>ParseUint\<close> on the rest
  (non-empty, decimal digits only), then the range check of a signed 64-bit integer.
  Every error makes \<open>Validate\<close> return, so a syntax error after an overflow is not
  told apart from the overflow.\<close>

definition isdigit :: "char \<Rightarrow> bool" where
  "isdigit c = (48 \<le> (of_char c :: nat) \<and> (of_char c :: nat) \<le> 57)"

fun digits_val :: "nat \<Rightarrow> string \<Rightarrow> nat" where
  "digits_val acc [] = acc"
| "digits_val acc (c # cs) = digits_val (acc * 10 + ((of_char c :: nat) - 48)) cs"

definition ParseUint :: "string \<Rightarrow> sig_error + nat" where
  "ParseUint s =
     (if s = [] then Inl (ErrSyntax s)
      else if \<not> list_all isdigit s then Inl (ErrSyntax s)
      else if digits_val 0 s \<ge> 2 ^ 64 then Inl (ErrRange s)
      else Inr (digits_val 0 s))"

definition ParseInt :: "string \<Rightarrow> sig_error + int" where
  "ParseInt s0 =
     (if s0 = [] then Inl (ErrSyntax s0)
      else
        let neg = (hd s0 = CHR ''-'');
            s = (if hd s0 = CHR ''+'' \<or> hd s0 = CHR ''-'' then tl s0 else s0)
        in case ParseUint s of
             Inl (ErrRange _) \<Rightarrow> Inl (ErrRange s0)
           | Inl e \<Rightarrow> Inl (ErrSyntax s0)
           | Inr un \<Rightarrow>
               if \<not> neg \<and> un \<ge> 2 ^ 63 then Inl (ErrRange s0)
               else if neg \<and> un > 2 ^ 63 then Inl (ErrRange s0)
               else Inr (if neg then - int un else int un))"

text \<open>Time: a clock reading is a number of nanoseconds since the epoch, \<open>Unix()\<close>
  its whole seconds (rounded down), \<open>Add\<close> an exact sum.  A \<open>time.Duration\<close> is a
  signed 64-bit number of nanoseconds, and its products wrap around.\<close>

definition wrap64 :: "int \<Rightarrow> int" where
  "wrap64 x = (x + 2 ^ 63) mod 2 ^ 64 - 2 ^ 63"

definition Second :: int where
  "Second = 1000000000"

definition Unix :: "int \<Rightarrow> int" where
  "Unix t = t div Second"

definition window_after :: "Signer \<Rightarrow> int \<Rightarrow> int" where
  "window_after s n = Unix (n + wrap64 (Second * wrap64 (Duration s)))"

definition window_before :: "Signer \<Rightarrow> int \<Rightarrow> int" where
  "window_before s n = Unix (n + wrap64 (Second * wrap64 (- 1 * wrap64 (Duration s))))"

text \<open>\<open>Signer.Sign\<close> and \<open>Signer.Validate\<close>.\<close>

definition Sign :: "(string \<Rightarrow> string) \<Rightarrow> Signer \<Rightarrow> int \<Rightarrow> Request \<Rightarrow> string \<Rightarrow> Request" where
  "Sign md5 s now req pfx =
     (let path = TrimPrefix (URLPath req) pfx;
          timeStr = FormatInt (Unix now);
          toSignStr = path @ timeStr @ Token s;
          sign = md5 toSignStr
      in req\<lparr>Header := Header_Set (Header_Set (Header req) headerToken sign) headerTime timeStr\<rparr>)"

definition Validate :: "(string \<Rightarrow> string) \<Rightarrow> Signer \<Rightarrow> int \<Rightarrow> Request \<Rightarrow> sig_error option" where
  "Validate md5 s n req =
     (if IsWhiteList s (URLPath req) then None
      else
        let timeStr = Header_Get (Header req) headerTime;
            token = Header_Get (Header req) headerToken;
            path = URLPath req
        in case ParseInt timeStr of
             Inl err \<Rightarrow> Some err
           | Inr timestamp \<Rightarrow>
               if timestamp > window_after s n \<or> timestamp < window_before s n
               then Some (ErrTimeOut timeStr n)
               else
                 let toSignStr = path @ timeStr @ Token s;
                     signOut = md5 toSignStr
                 in if signOut \<noteq> token
                    then Some (ErrInvalidSignature path toSignStr signOut)
                    else None)"

section \<open>pkg/service/handlers/observability: the alert rule and its derivation\<close>

text \<open>
  The handlers of \<open>monitor.go\<close> work on \<open>models.AlertRule\<close>.  The record below has the
  fields those handlers read or write.  A Go function that mutates the rule through its
  pointer and returns an \<open>error\<close> becomes a function from the rule to the rule as the
  call leaves it, paired with the error (\<open>None\<close> is \<open>nil\<close>).
\<close>

datatype error =
    External string
  | NotFound
  | AlreadyExists
  | NilPointer
  | Wrap error string
  | DuplicatedLabelMatcher string
  | DurationTooLong
  | LabelMatchersNull
  | ComparisonOperator
  | MustContainNamespace string string
  | ReceiversEmpty
  | ChannelDuplicated nat
  | AlertLevelsEmpty
  | SeverityDuplicated
  | InhibitLabelsEmpty

datatype AlertType = AlertTypeMonitor | AlertTypeLogging | AlertTypeOther string

record LabelMatcher =
  m_Type :: string
  m_Name :: string
  m_Value :: string

record PromqlTpl =
  tpl_Expr :: string
  tpl_Labels :: "string list"
  tpl_RuleShowName :: string

record PromqlGenerator =
  Scope :: string
  Resource :: string
  Rule :: string
  Unit :: string
  LabelMatchers :: "LabelMatcher list"
  Tpl :: "PromqlTpl option"

record LogqlGenerator =
  lq_Duration :: string
  lq_Match :: string
  lq_LabelMatchers :: "LabelMatcher list"

record AlertLevel =
  Severity :: string
  CompareOp :: string
  CompareValue :: string

datatype ChannelIf = Email string string | OtherChannel string

record AlertChannel =
  ch_ID :: nat
  ch_Name :: string
  ChannelConfig :: "ChannelIf option"

record AlertReceiver =
  AlertRuleID :: nat
  AlertChannelID :: nat
  AlertChannel :: "AlertChannel option"
  Interval :: string

record Alert =
  ActiveAt :: int
  alert_State :: string
  alert_Labels :: "(string \<times> string) list"

record AlertRule =
  ID :: nat
  Cluster :: string
  Namespace :: string
  Name :: string
  AlertType :: AlertType
  Expr :: string
  Message :: string
  For :: string
  AlertLevels :: "AlertLevel list"
  InhibitLabels :: "string list"
  Receivers :: "AlertReceiver list"
  PromqlGenerator :: "PromqlGenerator option"
  LogqlGenerator :: "LogqlGenerator option"
  State :: string
  RealTimeAlerts :: "Alert list"

subsection \<open>Constants and helpers of other packages\<close>

text \<open>
  The constants of \<open>pkg/utils/prometheus\<close> and the unit catalogue are not among the
  sources at hand; the functions below take them in a record.
\<close>

record prom_consts =
  AlertClusterKey :: string
  ValueAnnotationExpr :: string
  ParseUnit :: "string \<Rightarrow> error + string"

text \<open>\<open>ParseUnit\<close> stands for \<open>prometheus.ParseUnit\<close> followed by the field \<open>Show\<close> of
  the unit it returns.\<close>

subsection \<open>\<open>setMessage\<close>\<close>

text \<open>The labels of the template, each rendered as \<open>[l:{{ $labels.l }}] \<close>.\<close>

definition label_part :: "string \<Rightarrow> string" where
  "label_part l = ''['' @ l @ '':{{ $labels.'' @ l @ '' }}] ''"

fun label_parts :: "string \<Rightarrow> string list \<Rightarrow> string" where
  "label_parts msg [] = msg"
| "label_parts msg (l # ls) = label_parts (msg @ label_part l) ls"

text \<open>The three fixed texts of the logging message are UTF-8; they are given by their
  bytes.\<close>

definition txt_cluster :: string where
  "txt_cluster = [CHR 0xE9, CHR 0x9B, CHR 0x86, CHR 0xE7, CHR 0xBE, CHR 0xA4]"

definition txt_past :: string where
  "txt_past = [CHR 0xE6, CHR 0x97, CHR 0xA5, CHR 0xE5, CHR 0xBF, CHR 0x97, CHR 0xE4, CHR 0xB8,
     CHR 0xAD, CHR 0xE8, CHR 0xBF, CHR 0x87, CHR 0xE5, CHR 0x8E, CHR 0xBB, CHR 0x20]"

definition txt_occurs :: string where
  "txt_occurs = [CHR 0x20, CHR 0xE5, CHR 0x87, CHR 0xBA, CHR 0xE7, CHR 0x8E, CHR 0xB0, CHR 0xE5,
     CHR 0xAD, CHR 0x97, CHR 0xE7, CHR 0xAC, CHR 0xA6, CHR 0xE4, CHR 0xB8, CHR 0xB2, CHR 0x20,
     CHR 0x5B]"

definition txt_times :: string where
  "txt_times = [CHR 0x5D, CHR 0x20, CHR 0xE6, CHR 0xAC, CHR 0xA1, CHR 0xE6, CHR 0x95, CHR 0xB0,
     CHR 0xE8, CHR 0xA7, CHR 0xA6, CHR 0xE5, CHR 0x8F, CHR 0x91, CHR 0xE5, CHR 0x91, CHR 0x8A,
     CHR 0xE8, CHR 0xAD, CHR 0xA6, CHR 0x2C, CHR 0x20, CHR 0xE5, CHR 0xBD, CHR 0x93, CHR 0xE5,
     CHR 0x89, CHR 0x8D, CHR 0xE5, CHR 0x80, CHR 0xBC, CHR 0x3A, CHR 0x20]"

definition setMessage :: "prom_consts \<Rightarrow> AlertRule \<Rightarrow> AlertRule \<times> error option" where
  "setMessage K alertrule =
     (case AlertType alertrule of
        AlertTypeMonitor \<Rightarrow>
          (case PromqlGenerator alertrule of
             Some g \<Rightarrow>
               if Message alertrule = [] then
                 let m0 = Name alertrule @ '': [cluster:{{ $externalLabels.'' @ AlertClusterKey K @ '' }}] ''
                 in case Tpl g of
                      None \<Rightarrow> (alertrule\<lparr>Message := m0\<rparr>, Some NilPointer)
                    | Some tpl \<Rightarrow>
                        let m1 = label_parts m0 (tpl_Labels tpl)
                        in case ParseUnit K (Unit g) of
                             Inl err \<Rightarrow> (alertrule\<lparr>Message := m1\<rparr>, Some err)
                           | Inr unitShow \<Rightarrow>
                               (alertrule\<lparr>Message := m1 @ tpl_RuleShowName tpl
                                   @ '' trigger alert, value: '' @ ValueAnnotationExpr K @ unitShow\<rparr>,
                                None)
               else (alertrule, None)
           | None \<Rightarrow>
               (alertrule\<lparr>Message := Name alertrule @ '': [cluster:{{ $externalLabels.''
                   @ AlertClusterKey K @ '' }}] trigger alert, value: '' @ ValueAnnotationExpr K\<rparr>,
                None))
      | AlertTypeLogging \<Rightarrow>
          (case LogqlGenerator alertrule of
             Some g \<Rightarrow>
               (alertrule\<lparr>Message :=
                   label_parts
                     (Name alertrule @ '': ['' @ txt_cluster @ '':{{ $labels.'' @ AlertClusterKey K
                        @ '' }}] [namespace: {{ $labels.namespace }}] '')
                     (map m_Name (lq_LabelMatchers g))
                   @ txt_past @ lq_Duration g @ txt_occurs @ lq_Match g @ txt_times
                   @ ValueAnnotationExpr K\<rparr>,
                None)
           | None \<Rightarrow>
               (alertrule\<lparr>Message := Name alertrule @ '': [cluster:{{ $labels.''
                   @ AlertClusterKey K @ '' }}] trigger alert, value: '' @ ValueAnnotationExpr K\<rparr>,
                None))
      | AlertTypeOther t \<Rightarrow> (alertrule, None))"

subsection \<open>\<open>setExpr\<close>\<close>

text \<open>
  \<open>setExpr\<close> calls the query builder of \<open>pkg/utils/prometheus/promql\<close> (\<open>promql.New\<close>,
  \<open>AddLabelMatchers\<close>, \<open>String\<close>, and \<open>String\<close> of a label matcher),
  \<open>prometheus.SplitQueryExpr\<close>, and three library functions (\<open>model.ParseDuration\<close>,
  \<open>regexp.Compile\<close>, \<open>parser.ParseExpr\<close>).  None of them is among the sources at hand:
  they are fields of the record below, for any type \<open>'q\<close> of parsed queries.
  \<open>AddLabelMatchers\<close> stands for \<open>q.AddLabelMatchers(m.ToPromqlLabelMatcher())\<close>,
  \<open>hasOp\<close> for the fourth result of \<open>SplitQueryExpr\<close>, and \<open>ParseDuration\<close> returns
  nanoseconds.
\<close>

record 'q expr_env =
  promql_New :: "string \<Rightarrow> error + 'q"
  AddLabelMatchers :: "'q \<Rightarrow> LabelMatcher \<Rightarrow> 'q"
  q_String :: "'q \<Rightarrow> string"
  m_String :: "LabelMatcher \<Rightarrow> string"
  MatchEqual :: string
  GlobalAlertNamespace :: string
  ParseDuration :: "string \<Rightarrow> error + int"
  regexp_Compile :: "string \<Rightarrow> error option"
  ParseExpr :: "string \<Rightarrow> error option"
  hasOp :: "string \<Rightarrow> bool"

definition dq :: char where
  "dq = CHR 0x22"

text \<open>\<open>strings.Contains\<close> and \<open>strings.Join\<close>.\<close>

fun Contains :: "string \<Rightarrow> string \<Rightarrow> bool" where
  "Contains [] sub = (sub = [])"
| "Contains (c # s) sub = (prefix sub (c # s) \<or> Contains s sub)"

fun Join :: "string list \<Rightarrow> string \<Rightarrow> string" where
  "Join [] sep = []"
| "Join [x] sep = x"
| "Join (x # y # ys) sep = x @ sep @ Join (y # ys) sep"

text \<open>The loop over the label matchers: a matcher whose name was seen before ends the
  call with an error, any other is added to the query.\<close>

fun addMatchers :: "'q expr_env \<Rightarrow> string list \<Rightarrow> 'q \<Rightarrow> LabelMatcher list \<Rightarrow> error + 'q" where
  "addMatchers E labelSet q [] = Inr q"
| "addMatchers E labelSet q (m # ms) =
     (if m_Name m \<in> set labelSet then Inl (DuplicatedLabelMatcher (m_String E m))
      else addMatchers E (labelSet @ [m_Name m]) (AddLabelMatchers E q m) ms)"

text \<open>Ten minutes in nanoseconds.  The source compares \<open>time.Duration(dur).Minutes()\<close>, a
  \<open>float64\<close>, with 10; for a whole number of nanoseconds that comparison is true exactly
  when the number exceeds \<open>600000000000\<close>: the minutes are \<open>float64(d / Minute)\<close> plus
  \<open>float64(d % Minute) / 6e10\<close>, and one nanosecond over ten minutes already adds more
  than the spacing of the floating-point numbers around 10.\<close>

definition ten_minutes :: int where
  "ten_minutes = 600000000000"

text \<open>The expression of a log generator: the sorted matchers and the namespace matcher,
  joined, inside the count over the window.\<close>

definition logqlExpr :: "'q expr_env \<Rightarrow> string \<Rightarrow> LogqlGenerator \<Rightarrow> string" where
  "logqlExpr E namespace g =
     (let labelvalues = sort (map (m_String E) (lq_LabelMatchers g))
            @ [''namespace='' @ [dq] @ namespace @ [dq]]
      in ''sum(count_over_time({'' @ Join labelvalues '', ''
           @ ''} |~ `'' @ lq_Match g @ ''` ['' @ lq_Duration g
           @ '']))without(fluentd_thread)'')"

text \<open>The \<open>switch\<close> of \<open>setExpr\<close>, which derives the expression from a generator.  With a
  metric generator the namespace matcher is appended to the generator's own matcher list,
  which the rule keeps.\<close>

definition setExpr_switch :: "'q expr_env \<Rightarrow> AlertRule \<Rightarrow> AlertRule \<times> error option" where
  "setExpr_switch E alertrule =
     (case AlertType alertrule of
        AlertTypeMonitor \<Rightarrow>
          (case PromqlGenerator alertrule of
             None \<Rightarrow> (alertrule, None)
           | Some g \<Rightarrow>
               (case Tpl g of
                  None \<Rightarrow> (alertrule, Some NilPointer)
                | Some tpl \<Rightarrow>
                    (case promql_New E (tpl_Expr tpl) of
                       Inl err \<Rightarrow> (alertrule, Some err)
                     | Inr q \<Rightarrow>
                         let ms = (if Namespace alertrule \<noteq> GlobalAlertNamespace E \<and> Namespace alertrule \<noteq> []
                                   then LabelMatchers g @
                                        [\<lparr>m_Type = MatchEqual E, m_Name = ''namespace'',
                                          m_Value = Namespace alertrule\<rparr>]
                                   else LabelMatchers g);
                             r1 = alertrule\<lparr>PromqlGenerator := Some (g\<lparr>LabelMatchers := ms\<rparr>)\<rparr>
                         in case addMatchers E [] q ms of
                              Inl err \<Rightarrow> (r1, Some err)
                            | Inr q' \<Rightarrow> (r1\<lparr>Expr := q_String E q'\<rparr>, None))))
      | AlertTypeLogging \<Rightarrow>
          (case LogqlGenerator alertrule of
             None \<Rightarrow> (alertrule, None)
           | Some g \<Rightarrow>
               (case ParseDuration E (lq_Duration g) of
                  Inl err \<Rightarrow>
                    (alertrule, Some (Wrap err (''duration '' @ lq_Duration g @ '' not valid'')))
                | Inr dur \<Rightarrow>
                    if dur > ten_minutes then (alertrule, Some DurationTooLong)
                    else
                      (case regexp_Compile E (lq_Match g) of
                         Some err \<Rightarrow>
                           (alertrule, Some (Wrap err (''match '' @ lq_Match g @ '' not valid'')))
                       | None \<Rightarrow>
                           if lq_LabelMatchers g = [] then (alertrule, Some LabelMatchersNull)
                           else (alertrule\<lparr>Expr := logqlExpr E (Namespace alertrule) g\<rparr>, None))))
      | AlertTypeOther t \<Rightarrow> (alertrule, None))"

text \<open>The statements after the \<open>switch\<close>.  The first two build an error value
  (\<open>errors.New("empty expr")\<close>, \<open>errors.Wrapf(err, "parse expr: %s", ...)\<close>) and go on
  without returning it; \<open>emptyErr\<close> and \<open>parseErr\<close> are those values.\<close>

definition setExpr_checks :: "'q expr_env \<Rightarrow> AlertRule \<Rightarrow> error option" where
  "setExpr_checks E alertrule =
     (let emptyErr = (if Expr alertrule = [] then Some (External ''empty expr'') else None);
          parseErr = (if AlertType alertrule = AlertTypeMonitor
                      then map_option (\<lambda>err. Wrap err (''parse expr: '' @ Expr alertrule))
                             (ParseExpr E (Expr alertrule))
                      else None)
      in if hasOp E (Expr alertrule) then Some ComparisonOperator
         else if Namespace alertrule \<noteq> [] \<and> Namespace alertrule \<noteq> GlobalAlertNamespace E
           then if \<not> (Contains (Expr alertrule) (''namespace=~'' @ [dq] @ Namespace alertrule @ [dq])
                       \<or> Contains (Expr alertrule) (''namespace='' @ [dq] @ Namespace alertrule @ [dq]))
                then Some (MustContainNamespace (Expr alertrule) (Namespace alertrule))
                else None
           else None)"

definition setExpr :: "'q expr_env \<Rightarrow> AlertRule \<Rightarrow> AlertRule \<times> error option" where
  "setExpr E alertrule =
     (case setExpr_switch E alertrule of
        (r1, Some err) \<Rightarrow> (r1, Some err)
      | (r1, None) \<Rightarrow> (r1, setExpr_checks E r1))"

subsection \<open>\<open>setReceivers\<close> and \<open>checkAlertLevels\<close>\<close>

text \<open>
  \<open>setReceivers\<close> reads the channel table through \<open>db.First\<close> and the identity of the
  default channel from \<open>models.DefaultChannel\<close>; both are arguments here.  \<open>First\<close> maps
  the channel ID of a receiver to the stored channel or to the error of the query.
\<close>

record channel_db =
  DefaultChannelID :: nat
  First :: "nat \<Rightarrow> error + AlertChannel"

fun channelDup :: "nat list \<Rightarrow> AlertReceiver list \<Rightarrow> error option" where
  "channelDup channelSet [] = None"
| "channelDup channelSet (rec # recs) =
     (if AlertChannelID rec \<in> set channelSet then Some (ChannelDuplicated (AlertChannelID rec))
      else channelDup (channelSet @ [AlertChannelID rec]) recs)"

text \<open>The last loop: every receiver gets a channel holding its ID, which \<open>db.First\<close>
  fills in; the first failing query ends the loop, the receivers after it untouched.\<close>

fun loadChannels :: "channel_db \<Rightarrow> AlertReceiver list \<Rightarrow> AlertReceiver list \<times> error option" where
  "loadChannels D [] = ([], None)"
| "loadChannels D (v # vs) =
     (case First D (AlertChannelID v) of
        Inl err \<Rightarrow>
          (v\<lparr>AlertChannel := Some \<lparr>ch_ID = AlertChannelID v, ch_Name = [], ChannelConfig = None\<rparr>\<rparr> # vs,
           Some err)
      | Inr ch \<Rightarrow>
          (case loadChannels D vs of (vs', err) \<Rightarrow> (v\<lparr>AlertChannel := Some ch\<rparr> # vs', err)))"

definition setReceivers :: "channel_db \<Rightarrow> AlertRule \<Rightarrow> AlertRule \<times> error option" where
  "setReceivers D alertrule =
     (case Receivers alertrule of
        [] \<Rightarrow> (alertrule, Some ReceiversEmpty)
      | r0 # rest \<Rightarrow>
          (case channelDup [] (Receivers alertrule) of
             Some err \<Rightarrow> (alertrule, Some err)
           | None \<Rightarrow>
               let recs = (if DefaultChannelID D \<notin> set (map AlertChannelID (Receivers alertrule))
                           then Receivers alertrule @
                                [\<lparr>AlertRuleID = 0, AlertChannelID = DefaultChannelID D,
                                  AlertChannel = None, Interval = Interval r0\<rparr>]
                           else Receivers alertrule)
               in case loadChannels D recs of
                    (recs', err) \<Rightarrow> (alertrule\<lparr>Receivers := recs'\<rparr>, err)))"

fun severityDup :: "string list \<Rightarrow> AlertLevel list \<Rightarrow> error option" where
  "severityDup severitySet [] = None"
| "severityDup severitySet (v # vs) =
     (if Severity v \<in> set severitySet then Some SeverityDuplicated
      else severityDup (severitySet @ [Severity v]) vs)"

definition checkAlertLevels :: "AlertRule \<Rightarrow> error option" where
  "checkAlertLevels alertrule =
     (if AlertLevels alertrule = [] then Some AlertLevelsEmpty
      else case severityDup [] (AlertLevels alertrule) of
             Some err \<Rightarrow> Some err
           | None \<Rightarrow>
               if length (AlertLevels alertrule) > 1 \<and> InhibitLabels alertrule = []
               then Some InhibitLabelsEmpty
               else None)"

subsection \<open>\<open>getAlertRuleReq\<close>\<close>

text \<open>
  The request body as \<open>c.BindJSON\<close> decodes it (or its error), the path parameters
  \<open>cluster\<close> and \<open>namespace\<close>, and \<open>c.FullPath()\<close> are arguments;
  \<open>FindPromqlTpl\<close> is the template catalogue.  The result is the rule to store, or the
  error the handler answers with.
\<close>

definition getAlertRuleReq ::
  "prom_consts \<Rightarrow> 'q expr_env \<Rightarrow> channel_db \<Rightarrow> (string \<Rightarrow> string \<Rightarrow> string \<Rightarrow> error + PromqlTpl)
     \<Rightarrow> error + AlertRule \<Rightarrow> string \<Rightarrow> string \<Rightarrow> string \<Rightarrow> error + AlertRule" where
  "getAlertRuleReq K E D FindPromqlTpl body cluster namespace fullPath =
     (case body of
        Inl err \<Rightarrow> Inl err
      | Inr req0 \<Rightarrow>
          let req1 = req0\<lparr>Cluster := cluster, Namespace := namespace,
                         AlertType := (if Contains fullPath ''monitor/alerts''
                                       then AlertTypeMonitor else AlertTypeLogging)\<rparr>;
              tplres = (case PromqlGenerator req1 of
                          None \<Rightarrow> Inr req1
                        | Some g \<Rightarrow>
                            (case FindPromqlTpl (Scope g) (Resource g) (Rule g) of
                               Inl err \<Rightarrow> Inl err
                             | Inr tpl \<Rightarrow> Inr (req1\<lparr>PromqlGenerator := Some (g\<lparr>Tpl := Some tpl\<rparr>)\<rparr>)))
          in case tplres of
               Inl err \<Rightarrow> Inl err
             | Inr req2 \<Rightarrow>
                 (case setMessage K req2 of
                    (req3, Some err) \<Rightarrow> Inl err
                  | (req3, None) \<Rightarrow>
                      (case setExpr E req3 of
                         (req4, Some err) \<Rightarrow> Inl err
                       | (req4, None) \<Rightarrow>
                           (case setReceivers D req4 of
                              (req5, Some err) \<Rightarrow> Inl err
                            | (req5, None) \<Rightarrow>
                                (case checkAlertLevels req5 of
                                   Some err \<Rightarrow> Inl err
                                 | None \<Rightarrow> Inr req5)))))"

subsection \<open>Reading rules: \<open>ListMonitorAlertRule\<close> and \<open>GetMonitorAlertRule\<close>\<close>

text \<open>
  The table of alert rules is a list of rows.  What the outside world answers during one
  request is a record: whether the client of the cluster can be had (\<open>h.Execute\<close>),
  whether the query on the table fails, the live rules of \<open>GetPromeAlertRules\<close> by key, and
  whether the write of one rule's state fails.  \<open>RealTimeAlertKey\<close> of
  \<open>pkg/utils/prometheus\<close> is an argument.  A handler returns the table as it leaves it
  and its answer.
\<close>

record RealTimeAlertRule =
  live_State :: string
  live_Alerts :: "Alert list"

record read_io =
  clientErr :: "error option"
  queryErr :: "error option"
  GetPromeAlertRules :: "error + (string \<rightharpoonup> RealTimeAlertRule)"
  updateErr :: "AlertRule \<Rightarrow> error option"

text \<open>The state that a read gives a rule: the state of the live rule under the key of
  the rule's namespace and name, or \<open>inactive\<close> when there is none.\<close>

definition liveState ::
  "(string \<Rightarrow> string \<Rightarrow> string) \<Rightarrow> (string \<rightharpoonup> RealTimeAlertRule) \<Rightarrow> string \<Rightarrow> string \<Rightarrow> string" where
  "liveState RealTimeAlertKey realTimeAlertRules namespace name =
     (case realTimeAlertRules (RealTimeAlertKey namespace name) of
        Some promalert \<Rightarrow> live_State promalert
      | None \<Rightarrow> ''inactive'')"

text \<open>\<open>h.GetDB().Model(v).Update("state", v.State)\<close>: the column \<open>state\<close> of the row with
  the primary key of \<open>v\<close>.\<close>

definition Update_state :: "AlertRule list \<Rightarrow> AlertRule \<Rightarrow> AlertRule list" where
  "Update_state tbl v = map (\<lambda>row. if ID row = ID v then row\<lparr>State := State v\<rparr> else row) tbl"

fun refreshStates ::
  "(string \<Rightarrow> string \<Rightarrow> string) \<Rightarrow> read_io \<Rightarrow> (string \<rightharpoonup> RealTimeAlertRule)
     \<Rightarrow> AlertRule list \<Rightarrow> AlertRule list \<Rightarrow> AlertRule list \<times> error option" where
  "refreshStates RealTimeAlertKey io realTimeAlertRules tbl [] = (tbl, None)"
| "refreshStates RealTimeAlertKey io realTimeAlertRules tbl (v # vs) =
     (let v' = (case realTimeAlertRules (RealTimeAlertKey (Namespace v) (Name v)) of
                  Some promalert \<Rightarrow> v\<lparr>State := live_State promalert\<rparr>
                | None \<Rightarrow> v\<lparr>State := ''inactive''\<rparr>)
      in case updateErr io v' of
           Some err \<Rightarrow> (tbl, Some err)
         | None \<Rightarrow> refreshStates RealTimeAlertKey io realTimeAlertRules (Update_state tbl v') vs)"

text \<open>The first half of \<open>ListMonitorAlertRule\<close>, up to the paged query.\<close>

definition ListMonitorAlertRule_refresh ::
  "(string \<Rightarrow> string \<Rightarrow> string) \<Rightarrow> read_io \<Rightarrow> AlertRule list \<Rightarrow> string \<Rightarrow> string
     \<Rightarrow> AlertRule list \<times> error option" where
  "ListMonitorAlertRule_refresh RealTimeAlertKey io tbl cluster namespace =
     (case clientErr io of
        Some err \<Rightarrow> (tbl, Some err)
      | None \<Rightarrow>
          (case queryErr io of
             Some err \<Rightarrow> (tbl, Some err)
           | None \<Rightarrow>
               let thisClusterAlerts =
                     filter (\<lambda>row. AlertType row = AlertTypeMonitor \<and> Cluster row = cluster
                                    \<and> Namespace row = namespace) tbl
               in case GetPromeAlertRules io of
                    Inl err \<Rightarrow> (tbl, Some err)
                  | Inr realTimeAlertRules \<Rightarrow>
                      refreshStates RealTimeAlertKey io realTimeAlertRules tbl thisClusterAlerts))"

text \<open>The whole handler: the paged query of \<open>handlers\<close> (\<open>GetQuery\<close> and \<open>PageList\<close> with
  the conditions on cluster, namespace, alert type and the optional state) is the
  argument \<open>PageList\<close>, run on the table after the refresh.\<close>

definition ListMonitorAlertRule ::
  "(string \<Rightarrow> string \<Rightarrow> string) \<Rightarrow> (AlertRule list \<Rightarrow> string \<Rightarrow> string \<Rightarrow> string \<Rightarrow> error + 'p)
     \<Rightarrow> read_io \<Rightarrow> AlertRule list \<Rightarrow> string \<Rightarrow> string \<Rightarrow> string
     \<Rightarrow> AlertRule list \<times> (error + 'p)" where
  "ListMonitorAlertRule RealTimeAlertKey PageList io tbl cluster namespace state =
     (case ListMonitorAlertRule_refresh RealTimeAlertKey io tbl cluster namespace of
        (tbl', Some err) \<Rightarrow> (tbl', Inl err)
      | (tbl', None) \<Rightarrow> (tbl', PageList tbl' cluster namespace state))"

text \<open>\<open>sort.Slice\<close> with \<open>After\<close> puts the latest alert first; among alerts of one instant
  Go fixes no order, the model takes the reverse of the stable ascending sort.\<close>

definition sortAlerts :: "Alert list \<Rightarrow> Alert list" where
  "sortAlerts alerts = rev (sort_key ActiveAt alerts)"

definition find_first :: "('a \<Rightarrow> bool) \<Rightarrow> 'a list \<Rightarrow> 'a option" where
  "find_first P xs = (case filter P xs of [] \<Rightarrow> None | x # _ \<Rightarrow> Some x)"

definition GetMonitorAlertRule ::
  "(string \<Rightarrow> string \<Rightarrow> string) \<Rightarrow> read_io \<Rightarrow> AlertRule list \<Rightarrow> string \<Rightarrow> string \<Rightarrow> string
     \<Rightarrow> AlertRule list \<times> (error + AlertRule)" where
  "GetMonitorAlertRule RealTimeAlertKey io tbl cluster namespace name =
     (case clientErr io of
        Some err \<Rightarrow> (tbl, Inl err)
      | None \<Rightarrow>
          (case queryErr io of
             Some err \<Rightarrow> (tbl, Inl err)
           | None \<Rightarrow>
               (case find_first (\<lambda>row. Cluster row = cluster \<and> Namespace row = namespace
                                         \<and> Name row = name) tbl of
                  None \<Rightarrow> (tbl, Inl (External ''record not found''))
                | Some ret \<Rightarrow>
                    (case GetPromeAlertRules io of
                       Inl err \<Rightarrow> (tbl, Inl err)
                     | Inr realTimeAlertRules \<Rightarrow>
                         (case realTimeAlertRules (RealTimeAlertKey namespace name) of
                            Some promalert \<Rightarrow>
                              (tbl, Inr (ret\<lparr>State := live_State promalert,
                                              RealTimeAlerts := sortAlerts (live_Alerts promalert)\<rparr>))
                          | None \<Rightarrow> (tbl, Inr (ret\<lparr>State := ''inactive''\<rparr>)))))))"

subsection \<open>The remote cluster\<close>

text \<open>
  The three resources a rule is synchronised to live in the rule's cluster, each kind
  keyed by namespace and name.  The model keeps the three stores and, in \<open>calls\<close>, the
  requests made so far, in order.  A request can fail: \<open>fault\<close> gives, per verb and kind,
  the error the cluster answers with instead of acting.  A nil pointer dereference is the
  error \<open>NilPointer\<close>; it passes through every \<open>errors.Wrap\<close> unchanged, as a panic
  would.
\<close>

datatype kind = KSecret | KPrometheusRule | KAlertmanagerConfig | KSilence

datatype verb = VGet | VCreate | VUpdate | VDelete

record Secret =
  sec_Labels :: "(string \<times> string) list"
  sec_Type :: string
  sec_Data :: "(string \<times> string) list"

record MonRule =
  r_Alert :: string
  r_Expr :: string
  r_For :: string
  r_Labels :: "(string \<times> string) list"
  r_Annotations :: "(string \<times> string) list"

record RuleGroup =
  g_Name :: string
  g_Rules :: "MonRule list"

record PrometheusRule =
  pr_Labels :: "(string \<times> string) list"
  pr_Groups :: "RuleGroup list"

record Matcher =
  mt_Name :: string
  mt_Value :: string
  mt_Regex :: bool

text \<open>A sub-route is stored as the JSON text of a \<open>v1alpha1.Route\<close>; the model keeps the
  fields that \<open>json.Marshal\<close> is given.\<close>

record ChildRoute =
  cr_Receiver :: string
  cr_RepeatInterval :: string
  cr_Continue :: bool
  cr_Matchers :: "Matcher list"

record Route =
  rt_Receiver :: string
  rt_GroupBy :: "string list"
  rt_GroupWait :: string
  rt_GroupInterval :: string
  rt_Routes :: "ChildRoute list"

record InhibitRule =
  SourceMatch :: "Matcher list"
  TargetMatch :: "Matcher list"
  Equal :: "string list"

text \<open>An Alertmanager receiver: its name and, as opaque text, its configuration.\<close>

record AmReceiver =
  rc_Name :: string
  rc_Config :: string

record AlertmanagerConfigSpec =
  spec_Route :: Route
  spec_Receivers :: "AmReceiver list"
  InhibitRules :: "InhibitRule list"

record AlertmanagerConfig =
  am_Labels :: "(string \<times> string) list"
  am_Spec :: "AlertmanagerConfigSpec option"

record cluster =
  Secrets :: "(string \<times> string) \<rightharpoonup> Secret"
  PrometheusRules :: "(string \<times> string) \<rightharpoonup> PrometheusRule"
  AlertmanagerConfigs :: "(string \<times> string) \<rightharpoonup> AlertmanagerConfig"
  calls :: "(verb \<times> kind) list"

text \<open>The constants of \<open>pkg/utils/prometheus\<close>, \<open>pkg/apis/gems\<close> and
  \<open>pkg/utils/prometheus/channels\<close> that the synchronisation uses, and the methods of
  \<open>models.AlertChannel\<close>; none is among the sources at hand.\<close>

record sync_consts =
  AlertNamespaceLabel :: string
  AlertNameLabel :: string
  SeverityLabel :: string
  SeverityCritical :: string
  SeverityError :: string
  NullReceiverName :: string
  NullReceiver :: AmReceiver
  MessageAnnotationsKey :: string
  ValueAnnotationKey :: string
  ValueAnnotation :: string
  RuleLabels :: "string \<Rightarrow> (string \<times> string) list"
  ConfigLabels :: "string \<Rightarrow> (string \<times> string) list"
  EmailSecretName :: string
  EmailSecretLabel :: "(string \<times> string) list"
  EmailSecretKey :: "string \<Rightarrow> string \<Rightarrow> string"
  ReceiverName :: "AlertChannel \<Rightarrow> string"
  ToAlertmanagerReceiver :: "AlertChannel \<Rightarrow> AmReceiver"

text \<open>\<open>RuleLabels name\<close> and \<open>ConfigLabels name\<close> are the two label maps
  \<open>{LabelPrometheusRuleType: AlertTypeMonitor, LabelPrometheusRuleName: name}\<close> and
  \<open>{LabelAlertmanagerConfigType: AlertTypeMonitor, LabelAlertmanagerConfigName: name}\<close>;
  \<open>ValueAnnotation\<close> is \<open>prometheus.ValueAnnotationExpr\<close>.\<close>

record sync_io =
  ClientOf :: "string \<Rightarrow> error option"
  fault :: "verb \<Rightarrow> kind \<Rightarrow> error option"
  deleteSilenceIfExist :: "string \<Rightarrow> string \<Rightarrow> error option"

definition errWrap :: "error \<Rightarrow> string \<Rightarrow> error" where
  "errWrap err msg = (if err = NilPointer then NilPointer else Wrap err msg)"

definition called :: "verb \<Rightarrow> kind \<Rightarrow> cluster \<Rightarrow> cluster" where
  "called v k c = c\<lparr>calls := calls c @ [(v, k)]\<rparr>"

text \<open>
  \<open>controllerutil.CreateOrUpdate\<close>: read the object; when it is not found, mutate the
  given object and create it; otherwise mutate the object read and, unless that changed
  nothing, update it.  \<open>sel\<close> and \<open>put\<close> pick the store of the kind; \<open>f\<close> is the mutate
  function, which may end in an error.
\<close>

definition CreateOrUpdate ::
  "sync_io \<Rightarrow> kind \<Rightarrow> (cluster \<Rightarrow> (string \<times> string) \<rightharpoonup> 'o)
     \<Rightarrow> (((string \<times> string) \<rightharpoonup> 'o) \<Rightarrow> cluster \<Rightarrow> cluster)
     \<Rightarrow> cluster \<Rightarrow> string \<times> string \<Rightarrow> 'o \<Rightarrow> ('o \<Rightarrow> error + 'o) \<Rightarrow> cluster \<times> error option" where
  "CreateOrUpdate io k sel put c key obj f =
     (let c1 = called VGet k c;
          got = (case fault io VGet k of
                   Some err \<Rightarrow> Inl err
                 | None \<Rightarrow> (case sel c key of None \<Rightarrow> Inl NotFound | Some existing \<Rightarrow> Inr existing))
      in case got of
           Inl err \<Rightarrow>
             if err \<noteq> NotFound then (c1, Some err)
             else
               (case f obj of
                  Inl err \<Rightarrow> (c1, Some err)
                | Inr obj' \<Rightarrow>
                    let c2 = called VCreate k c1
                    in case fault io VCreate k of
                         Some err \<Rightarrow> (c2, Some err)
                       | None \<Rightarrow>
                           if sel c key \<noteq> None then (c2, Some AlreadyExists)
                           else (put ((sel c)(key \<mapsto> obj')) c2, None))
         | Inr existing \<Rightarrow>
             (case f existing of
                Inl err \<Rightarrow> (c1, Some err)
              | Inr obj' \<Rightarrow>
                  if obj' = existing then (c1, None)
                  else
                    let c2 = called VUpdate k c1
                    in case fault io VUpdate k of
                         Some err \<Rightarrow> (c2, Some err)
                       | None \<Rightarrow> (put ((sel c)(key \<mapsto> obj')) c2, None)))"

text \<open>\<open>cli.Delete\<close>: the fault if there is one, \<open>NotFound\<close> for an absent object.\<close>

definition Delete ::
  "sync_io \<Rightarrow> kind \<Rightarrow> (cluster \<Rightarrow> (string \<times> string) \<rightharpoonup> 'o)
     \<Rightarrow> (((string \<times> string) \<rightharpoonup> 'o) \<Rightarrow> cluster \<Rightarrow> cluster)
     \<Rightarrow> cluster \<Rightarrow> string \<times> string \<Rightarrow> cluster \<times> error option" where
  "Delete io k sel put c key =
     (let c1 = called VDelete k c
      in case fault io VDelete k of
           Some err \<Rightarrow> (c1, Some err)
         | None \<Rightarrow>
             (case sel c key of
                None \<Rightarrow> (c1, Some NotFound)
              | Some obj \<Rightarrow> (put ((sel c)(key := None)) c1, None)))"

subsection \<open>\<open>syncEmailSecret\<close>, \<open>syncPrometheusRule\<close>, \<open>syncAlertmanagerConfig\<close>\<close>

text \<open>The e-mail channels of the receivers by receiver name (a later receiver of the
  same name replaces an earlier one).  \<open>Email from password\<close> holds the fields \<open>From\<close> and
  \<open>AuthPassword\<close> of \<open>channels.Email\<close>.  Go ranges over the map in no fixed order; the
  model takes the order of first insertion.\<close>

fun collectEmails ::
  "sync_consts \<Rightarrow> (string \<times> string \<times> string) list \<Rightarrow> AlertReceiver list
     \<Rightarrow> error + (string \<times> string \<times> string) list" where
  "collectEmails S emails [] = Inr emails"
| "collectEmails S emails (rec # recs) =
     (case AlertChannel rec of
        None \<Rightarrow> Inl NilPointer
      | Some ch \<Rightarrow>
          (case ChannelConfig ch of
             Some (Email from password) \<Rightarrow>
               collectEmails S (AList.update (ReceiverName S ch) (from, password) emails) recs
           | Some (OtherChannel x) \<Rightarrow> collectEmails S emails recs
           | None \<Rightarrow> collectEmails S emails recs))"

definition put_Secrets :: "((string \<times> string) \<rightharpoonup> Secret) \<Rightarrow> cluster \<Rightarrow> cluster" where
  "put_Secrets m c = c\<lparr>Secrets := m\<rparr>"

definition put_PrometheusRules :: "((string \<times> string) \<rightharpoonup> PrometheusRule) \<Rightarrow> cluster \<Rightarrow> cluster" where
  "put_PrometheusRules m c = c\<lparr>PrometheusRules := m\<rparr>"

definition put_AlertmanagerConfigs ::
  "((string \<times> string) \<rightharpoonup> AlertmanagerConfig) \<Rightarrow> cluster \<Rightarrow> cluster" where
  "put_AlertmanagerConfigs m c = c\<lparr>AlertmanagerConfigs := m\<rparr>"

definition syncEmailSecret :: "sync_consts \<Rightarrow> sync_io \<Rightarrow> cluster \<Rightarrow> AlertRule \<Rightarrow> cluster \<times> error option" where
  "syncEmailSecret S io c alertrule =
     (case collectEmails S [] (Receivers alertrule) of
        Inl err \<Rightarrow> (c, Some err)
      | Inr emails \<Rightarrow>
          CreateOrUpdate io KSecret Secrets put_Secrets c
            (Namespace alertrule, EmailSecretName S)
            \<lparr>sec_Labels = EmailSecretLabel S, sec_Type = ''Opaque'', sec_Data = []\<rparr>
            (\<lambda>sec. Inr (sec\<lparr>sec_Data :=
                 foldl (\<lambda>d (recName, from, password).
                          AList.update (EmailSecretKey S recName from) password d)
                       (sec_Data sec) emails\<rparr>)))"

definition levelRule :: "sync_consts \<Rightarrow> AlertRule \<Rightarrow> AlertLevel \<Rightarrow> MonRule" where
  "levelRule S alertrule level =
     \<lparr>r_Alert = Name alertrule,
      r_Expr = Expr alertrule @ CompareOp level @ CompareValue level,
      r_For = For alertrule,
      r_Labels = [(AlertNamespaceLabel S, Namespace alertrule),
                  (AlertNameLabel S, Name alertrule),
                  (SeverityLabel S, Severity level)],
      r_Annotations = [(MessageAnnotationsKey S, Message alertrule),
                       (ValueAnnotationKey S, ValueAnnotation S)]\<rparr>"

definition syncPrometheusRule :: "sync_consts \<Rightarrow> sync_io \<Rightarrow> cluster \<Rightarrow> AlertRule \<Rightarrow> cluster \<times> error option" where
  "syncPrometheusRule S io c alertrule =
     CreateOrUpdate io KPrometheusRule PrometheusRules put_PrometheusRules c
       (Namespace alertrule, Name alertrule)
       \<lparr>pr_Labels = RuleLabels S (Name alertrule), pr_Groups = []\<rparr>
       (\<lambda>prule. Inr (prule\<lparr>pr_Groups :=
            [\<lparr>g_Name = Name alertrule,
              g_Rules = map (levelRule S alertrule) (AlertLevels alertrule)\<rparr>]\<rparr>))"

definition ruleMatchers :: "sync_consts \<Rightarrow> AlertRule \<Rightarrow> Matcher list" where
  "ruleMatchers S alertrule =
     [\<lparr>mt_Name = AlertNamespaceLabel S, mt_Value = Namespace alertrule, mt_Regex = False\<rparr>,
      \<lparr>mt_Name = AlertNameLabel S, mt_Value = Name alertrule, mt_Regex = False\<rparr>]"

text \<open>The loop over the receivers: one Alertmanager receiver and one sub-route each.\<close>

fun addReceivers ::
  "sync_consts \<Rightarrow> AlertRule \<Rightarrow> AlertmanagerConfigSpec \<Rightarrow> AlertReceiver list
     \<Rightarrow> error + AlertmanagerConfigSpec" where
  "addReceivers S alertrule spec [] = Inr spec"
| "addReceivers S alertrule spec (rec # recs) =
     (case AlertChannel rec of
        None \<Rightarrow> Inl NilPointer
      | Some ch \<Rightarrow>
          addReceivers S alertrule
            (spec\<lparr>spec_Receivers := spec_Receivers spec @ [ToAlertmanagerReceiver S ch],
                  spec_Route := (spec_Route spec)\<lparr>rt_Routes := rt_Routes (spec_Route spec) @
                     [\<lparr>cr_Receiver = ReceiverName S ch, cr_RepeatInterval = Interval rec,
                       cr_Continue = True, cr_Matchers = ruleMatchers S alertrule\<rparr>]\<rparr>\<rparr>)
            recs)"

definition inhibitRule :: "sync_consts \<Rightarrow> AlertRule \<Rightarrow> InhibitRule" where
  "inhibitRule S alertrule =
     \<lparr>SourceMatch = ruleMatchers S alertrule @
        [\<lparr>mt_Name = SeverityLabel S, mt_Value = SeverityCritical S, mt_Regex = False\<rparr>],
      TargetMatch = ruleMatchers S alertrule @
        [\<lparr>mt_Name = SeverityLabel S, mt_Value = SeverityError S, mt_Regex = False\<rparr>],
      Equal = InhibitLabels alertrule @ [AlertNamespaceLabel S, AlertNameLabel S]\<rparr>"

text \<open>The mutate function of \<open>syncAlertmanagerConfig\<close>: the specification is built anew
  from the rule, whatever the object held before.\<close>

definition amcfgSpec :: "sync_consts \<Rightarrow> AlertRule \<Rightarrow> error + AlertmanagerConfigSpec" where
  "amcfgSpec S alertrule =
     (let spec0 = \<lparr>spec_Route = \<lparr>rt_Receiver = NullReceiverName S,
                                  rt_GroupBy = [AlertNamespaceLabel S, AlertNameLabel S],
                                  rt_GroupWait = ''30s'', rt_GroupInterval = ''30s'',
                                  rt_Routes = []\<rparr>,
                    spec_Receivers = [NullReceiver S],
                    InhibitRules = []\<rparr>
      in case addReceivers S alertrule spec0 (Receivers alertrule) of
           Inl err \<Rightarrow> Inl err
         | Inr spec1 \<Rightarrow>
             if length (InhibitLabels alertrule) > 0
             then Inr (spec1\<lparr>InhibitRules := InhibitRules spec1 @ [inhibitRule S alertrule]\<rparr>)
             else Inr spec1)"

definition syncAlertmanagerConfig ::
  "sync_consts \<Rightarrow> sync_io \<Rightarrow> cluster \<Rightarrow> AlertRule \<Rightarrow> cluster \<times> error option" where
  "syncAlertmanagerConfig S io c alertrule =
     CreateOrUpdate io KAlertmanagerConfig AlertmanagerConfigs put_AlertmanagerConfigs c
       (Namespace alertrule, Name alertrule)
       \<lparr>am_Labels = ConfigLabels S (Name alertrule), am_Spec = None\<rparr>
       (\<lambda>amcfg. case amcfgSpec S alertrule of
                   Inl err \<Rightarrow> Inl err
                 | Inr spec \<Rightarrow> Inr (amcfg\<lparr>am_Spec := Some spec\<rparr>))"

subsection \<open>\<open>syncMonitorAlertRule\<close> and \<open>deleteMonitorAlertRule\<close>\<close>

definition syncMonitorAlertRule ::
  "sync_consts \<Rightarrow> sync_io \<Rightarrow> cluster \<Rightarrow> AlertRule \<Rightarrow> cluster \<times> error option" where
  "syncMonitorAlertRule S io c alertrule =
     (case ClientOf io (Cluster alertrule) of
        Some err \<Rightarrow> (c, Some err)
      | None \<Rightarrow>
          (case syncEmailSecret S io c alertrule of
             (c1, Some err) \<Rightarrow> (c1, Some (errWrap err ''sync secret failed''))
           | (c1, None) \<Rightarrow>
               (case syncPrometheusRule S io c1 alertrule of
                  (c2, Some err) \<Rightarrow> (c2, Some (errWrap err ''sync prometheusrule failed''))
                | (c2, None) \<Rightarrow>
                    (case syncAlertmanagerConfig S io c2 alertrule of
                       (c3, Some err) \<Rightarrow> (c3, Some (errWrap err ''sync alertmanagerconfig failed''))
                     | (c3, None) \<Rightarrow> (c3, None)))))"

definition IsNotFound :: "error \<Rightarrow> bool" where
  "IsNotFound err = (err = NotFound)"

text \<open>The test \<open>err != nil && !kerrors.IsNotFound(err)\<close>.\<close>

definition otherFailure :: "error option \<Rightarrow> bool" where
  "otherFailure e = (case e of None \<Rightarrow> False | Some err \<Rightarrow> \<not> IsNotFound err)"

definition deleteMonitorAlertRule :: "sync_io \<Rightarrow> cluster \<Rightarrow> AlertRule \<Rightarrow> cluster \<times> error option" where
  "deleteMonitorAlertRule io c alertrule =
     (case ClientOf io (Cluster alertrule) of
        Some err \<Rightarrow> (c, Some err)
      | None \<Rightarrow>
          (case Delete io KPrometheusRule PrometheusRules put_PrometheusRules c
                  (Namespace alertrule, Name alertrule) of
             (c1, e1) \<Rightarrow>
               if otherFailure e1 then (c1, e1)
               else
                 (case Delete io KAlertmanagerConfig AlertmanagerConfigs put_AlertmanagerConfigs c1
                         (Namespace alertrule, Name alertrule) of
                    (c2, e2) \<Rightarrow>
                      if otherFailure e2 then (c2, e2)
                      else (called VDelete KSilence c2,
                            deleteSilenceIfExist io (Namespace alertrule) (Name alertrule)))))"

subsection \<open>A small instance of the collaborators, and example rules\<close>

text \<open>
  The theorems below hold for every choice of the collaborators.  To run the functions on
  examples, here is one choice; each stand-in answers on the part of its domain it
  covers as the function it stands for does, and the examples stay inside that part.
\<close>

text \<open>Modelled from the spec: \<open>String\<close> of \<open>promql.LabelMatcher\<close> is not among the
  sources; a matcher is written as label name, operator and quoted value, as in the
  expression \<open>namespace="team-a"\<close> the spec expects.\<close>

definition matcher_text :: "LabelMatcher \<Rightarrow> string" where
  "matcher_text m = m_Name m @ m_Type m @ [dq] @ m_Value m @ [dq]"

text \<open>Modelled from the spec: \<open>prometheus.SplitQueryExpr\<close> is not among the sources; its
  fourth result tells whether the expression contains a raw comparison operator, the
  operators being the ones the error text of \<open>setExpr\<close> lists: \<open>< <= == != > >=\<close>.\<close>

definition contains_op :: "string \<Rightarrow> bool" where
  "contains_op s = (Contains s ''<'' \<or> Contains s ''<='' \<or> Contains s ''=='' \<or> Contains s ''!=''
                    \<or> Contains s ''>'' \<or> Contains s ''>='')"

text \<open>Modelled from the spec: the query builder of \<open>pkg/utils/prometheus/promql\<close> is not
  among the sources; per the spec it parses the template's expression, appends label
  matchers and serialises the result.  The stand-in covers a template that is a bare
  metric name: the query is the name with its matchers, written \<open>name{m1,m2}\<close>.\<close>

type_synonym selector = "string \<times> LabelMatcher list"

definition is_name_char :: "char \<Rightarrow> bool" where
  "is_name_char c = (isdigit c \<or> c = CHR ''_'' \<or> c = CHR '':''
                     \<or> (65 \<le> (of_char c :: nat) \<and> (of_char c :: nat) \<le> 90)
                     \<or> (97 \<le> (of_char c :: nat) \<and> (of_char c :: nat) \<le> 122))"

definition selector_New :: "string \<Rightarrow> error + selector" where
  "selector_New e = (if e \<noteq> [] \<and> list_all is_name_char e then Inr (e, [])
                     else Inl (External ''parse error''))"

definition selector_Add :: "selector \<Rightarrow> LabelMatcher \<Rightarrow> selector" where
  "selector_Add q m = (fst q, snd q @ [m])"

definition selector_String :: "selector \<Rightarrow> string" where
  "selector_String q = fst q @ ''{'' @ Join (map matcher_text (snd q)) '','' @ ''}''"

text \<open>A stand-in for \<open>model.ParseDuration\<close> on a number followed by one unit.\<close>

definition unit_ns :: "string \<Rightarrow> nat option" where
  "unit_ns u = (if u = ''ms'' then Some 1000000
                else if u = ''s'' then Some 1000000000
                else if u = ''m'' then Some 60000000000
                else if u = ''h'' then Some 3600000000000
                else if u = ''d'' then Some 86400000000000
                else if u = ''w'' then Some 604800000000000
                else if u = ''y'' then Some 31536000000000000
                else None)"

definition simple_ParseDuration :: "string \<Rightarrow> error + int" where
  "simple_ParseDuration s =
     (let ds = takeWhile isdigit s; u = dropWhile isdigit s
      in if ds = [] then Inl (External ''not a valid duration string'')
         else case unit_ns u of
                None \<Rightarrow> Inl (External ''unknown unit in duration'')
              | Some mult \<Rightarrow>
                  if digits_val 0 ds * mult \<ge> 2 ^ 63 then Inl (External ''duration out of range'')
                  else Inr (int (digits_val 0 ds * mult)))"

text \<open>A stand-in for \<open>regexp.Compile\<close> that accepts the patterns free of the characters
  with a meaning in a regular expression, and one for \<open>parser.ParseExpr\<close> that rejects
  the empty text and text with an unclosed brace.\<close>

definition plain_regexp :: "string \<Rightarrow> error option" where
  "plain_regexp s =
     (if \<exists>c \<in> set s. c \<in> set (CHR 0x5C # ''.+*?()|[]{}^$'')
      then Some (External ''pattern outside the stand-in'') else None)"

definition simple_ParseExpr :: "string \<Rightarrow> error option" where
  "simple_ParseExpr s =
     (if s = [] then Some (External ''no expression found in input'')
      else if length (filter (\<lambda>c. c = CHR ''{'') s) \<noteq> length (filter (\<lambda>c. c = CHR ''}'') s)
      then Some (External ''unexpected end of input inside braces'')
      else None)"

definition example_env :: "selector expr_env" where
  "example_env =
     \<lparr>promql_New = selector_New, AddLabelMatchers = selector_Add, q_String = selector_String,
      m_String = matcher_text, MatchEqual = ''='', GlobalAlertNamespace = ''kubegems-monitoring'',
      ParseDuration = simple_ParseDuration, regexp_Compile = plain_regexp,
      ParseExpr = simple_ParseExpr, hasOp = contains_op\<rparr>"

definition example_consts :: prom_consts where
  "example_consts =
     \<lparr>AlertClusterKey = ''cluster'', ValueAnnotationExpr = ''{{ $value }}'',
      ParseUnit = (\<lambda>u. if u = ''percent'' then Inr ''%'' else Inl (External ''unknown unit''))\<rparr>"

text \<open>The rule of the spec's scenario: \<open>high-cpu\<close> in namespace \<open>team-a\<close>, template
  (node, cpu, usage), one matcher on \<open>pod\<close>, one level, the default channel (ID 1).\<close>

definition cpu_tpl :: PromqlTpl where
  "cpu_tpl = \<lparr>tpl_Expr = ''node_cpu_usage'', tpl_Labels = [''node''], tpl_RuleShowName = ''usage''\<rparr>"

definition high_cpu :: AlertRule where
  "high_cpu =
     \<lparr>ID = 7, Cluster = ''c1'', Namespace = ''team-a'', Name = ''high-cpu'',
      AlertType = AlertTypeMonitor, Expr = [], Message = [], For = ''1m'',
      AlertLevels = [\<lparr>Severity = ''critical'', CompareOp = ''>'', CompareValue = ''80''\<rparr>],
      InhibitLabels = [],
      Receivers = [\<lparr>AlertRuleID = 7, AlertChannelID = 1, AlertChannel = None, Interval = ''1h''\<rparr>],
      PromqlGenerator = Some \<lparr>Scope = ''node'', Resource = ''cpu'', Rule = ''usage'',
         Unit = ''percent'',
         LabelMatchers = [\<lparr>m_Type = ''=~'', m_Name = ''pod'', m_Value = ''web-.*''\<rparr>],
         Tpl = Some cpu_tpl\<rparr>,
      LogqlGenerator = None, State = ''inactive'', RealTimeAlerts = []\<rparr>"

text \<open>The same rule with an expression of the caller's instead of a generator.\<close>

definition custom_expr_rule :: AlertRule where
  "custom_expr_rule =
     high_cpu\<lparr>PromqlGenerator := None,
              Expr := ''up{namespace='' @ [dq] @ ''team-a'' @ [dq] @ ''}''\<rparr>"

text \<open>A logging rule with a log generator.\<close>

definition log_rule :: AlertRule where
  "log_rule =
     \<lparr>ID = 8, Cluster = ''c1'', Namespace = ''team-a'', Name = ''many-errors'',
      AlertType = AlertTypeLogging, Expr = [], Message = ''errors in the log'', For = ''1m'',
      AlertLevels = [\<lparr>Severity = ''error'', CompareOp = ''>'', CompareValue = ''5''\<rparr>],
      InhibitLabels = [],
      Receivers = [\<lparr>AlertRuleID = 8, AlertChannelID = 1, AlertChannel = None, Interval = ''1h''\<rparr>],
      PromqlGenerator = None,
      LogqlGenerator = Some \<lparr>lq_Duration = ''10m'', lq_Match = ''error'',
         lq_LabelMatchers = [\<lparr>m_Type = ''='', m_Name = ''app'', m_Value = ''web''\<rparr>]\<rparr>,
      State = ''inactive'', RealTimeAlerts = []\<rparr>"

definition log_rule_11m :: AlertRule where
  "log_rule_11m =
     log_rule\<lparr>LogqlGenerator := Some \<lparr>lq_Duration = ''11m'', lq_Match = ''error'',
        lq_LabelMatchers = [\<lparr>m_Type = ''='', m_Name = ''app'', m_Value = ''web''\<rparr>]\<rparr>\<rparr>"

text \<open>A logging rule whose match text holds the character \<open>>\<close>.\<close>

definition log_rule_gt :: AlertRule where
  "log_rule_gt =
     log_rule\<lparr>LogqlGenerator := Some \<lparr>lq_Duration = ''5m'', lq_Match = ''a>b'',
        lq_LabelMatchers = [\<lparr>m_Type = ''='', m_Name = ''app'', m_Value = ''web''\<rparr>]\<rparr>\<rparr>"

definition example_db :: channel_db where
  "example_db =
     \<lparr>DefaultChannelID = 1,
      First = (\<lambda>i. if i = 1
                    then Inr \<lparr>ch_ID = 1, ch_Name = ''default'', ChannelConfig = Some (OtherChannel ''webhook'')\<rparr>
                    else if i = 2
                    then Inr \<lparr>ch_ID = 2, ch_Name = ''ops-mail'',
                              ChannelConfig = Some (Email ''ops@example.org'' ''secret'')\<rparr>
                    else Inl (External ''record not found''))\<rparr>"

text \<open>The channel table above holds the channels 1 (the default) and 2.\<close>

text \<open>Reading: the live rules hold \<open>high-cpu\<close> of \<open>team-a\<close> as firing, every request is
  answered, and the key of a live rule is namespace, a dash, name.\<close>

definition example_key :: "string \<Rightarrow> string \<Rightarrow> string" where
  "example_key namespace name = namespace @ ''-'' @ name"

definition example_read :: read_io where
  "example_read =
     \<lparr>clientErr = None, queryErr = None,
      GetPromeAlertRules = Inr [''team-a-high-cpu'' \<mapsto> \<lparr>live_State = ''firing'', live_Alerts = []\<rparr>],
      updateErr = (\<lambda>v. None)\<rparr>"

definition mail_only :: AlertRule where
  "mail_only = high_cpu\<lparr>Receivers :=
     [\<lparr>AlertRuleID = 7, AlertChannelID = 2, AlertChannel = None, Interval = ''30m''\<rparr>]\<rparr>"

definition dangling_only :: AlertRule where
  "dangling_only = high_cpu\<lparr>Receivers :=
     [\<lparr>AlertRuleID = 7, AlertChannelID = 5, AlertChannel = None, Interval = ''1h''\<rparr>]\<rparr>"

text \<open>A rule of the global namespace without generator and with an empty expression, and
  a rule of \<open>team-a\<close> whose expression \<open>up{namespace="team-a"\<close> lacks the closing
  brace.\<close>

definition empty_expr_rule :: AlertRule where
  "empty_expr_rule = high_cpu\<lparr>Namespace := ''kubegems-monitoring'', PromqlGenerator := None\<rparr>"

definition open_brace_rule :: AlertRule where
  "open_brace_rule =
     high_cpu\<lparr>PromqlGenerator := None, Expr := ''up{namespace='' @ [dq] @ ''team-a'' @ [dq]\<rparr>"

text \<open>Synchronising: values for the constants, a cluster that answers every request, one
  whose silences cannot be reached, and rules whose receivers are resolved.\<close>

definition example_sync :: sync_consts where
  "example_sync =
     \<lparr>AlertNamespaceLabel = ''gems_namespace'', AlertNameLabel = ''gems_alertname'',
      SeverityLabel = ''severity'', SeverityCritical = ''critical'', SeverityError = ''error'',
      NullReceiverName = ''null'', NullReceiver = \<lparr>rc_Name = ''null'', rc_Config = []\<rparr>,
      MessageAnnotationsKey = ''message'', ValueAnnotationKey = ''value'',
      ValueAnnotation = ''{{ $value }}'',
      RuleLabels = (\<lambda>name. [(''prometheusrule-type'', ''monitor''), (''prometheusrule-name'', name)]),
      ConfigLabels = (\<lambda>name. [(''alertmanagerconfig-type'', ''monitor''),
                                 (''alertmanagerconfig-name'', name)]),
      EmailSecretName = ''kubegems-email-password'',
      EmailSecretLabel = [(''type'', ''email-secret'')],
      EmailSecretKey = (\<lambda>recName from. recName @ ''-'' @ from),
      ReceiverName = ch_Name,
      ToAlertmanagerReceiver = (\<lambda>ch. \<lparr>rc_Name = ch_Name ch, rc_Config = []\<rparr>)\<rparr>"

definition healthy :: sync_io where
  "healthy = \<lparr>ClientOf = (\<lambda>cluster. None), fault = (\<lambda>v k. None),
              deleteSilenceIfExist = (\<lambda>namespace name. None)\<rparr>"

definition silence_down :: sync_io where
  "silence_down = healthy\<lparr>deleteSilenceIfExist :=
     (\<lambda>namespace name. Some (External ''alertmanager unreachable''))\<rparr>"

definition rules_down :: sync_io where
  "rules_down = healthy\<lparr>fault :=
     (\<lambda>v k. if k = KPrometheusRule then Some (External ''connection refused'') else None)\<rparr>"

definition empty_cluster :: cluster where
  "empty_cluster = \<lparr>Secrets = Map.empty, PrometheusRules = Map.empty,
                     AlertmanagerConfigs = Map.empty, calls = []\<rparr>"

definition default_channel :: AlertChannel where
  "default_channel = \<lparr>ch_ID = 1, ch_Name = ''default'', ChannelConfig = Some (OtherChannel ''webhook'')\<rparr>"

definition high_cpu_resolved :: AlertRule where
  "high_cpu_resolved = high_cpu\<lparr>Receivers :=
     [\<lparr>AlertRuleID = 7, AlertChannelID = 1, AlertChannel = Some default_channel, Interval = ''1h''\<rparr>]\<rparr>"

text \<open>One severity level with an inhibit label, and two levels with the same label.\<close>

definition one_level_inhibit :: AlertRule where
  "one_level_inhibit = high_cpu_resolved\<lparr>InhibitLabels := [''pod'']\<rparr>"

definition two_levels :: AlertRule where
  "two_levels = high_cpu_resolved\<lparr>InhibitLabels := [''pod''],
     AlertLevels := [\<lparr>Severity = ''critical'', CompareOp = ''>'', CompareValue = ''80''\<rparr>,
                     \<lparr>Severity = ''warning'', CompareOp = ''>'', CompareValue = ''60''\<rparr>]\<rparr>"

subsection \<open>Decimal round trip\<close>

lemma isdigit_digit_char: "d < 10 \<Longrightarrow> isdigit (digit_char d)"
  by (simp add: isdigit_def digit_char_def)

lemma of_char_digit_char: "d < 10 \<Longrightarrow> (of_char (digit_char d) :: nat) - 48 = d"
  by (simp add: digit_char_def)

lemma digits_val_append:
  "digits_val acc (xs @ [c]) = digits_val acc xs * 10 + ((of_char c :: nat) - 48)"
  by (induction xs arbitrary: acc) simp_all

lemma FormatUint_digits: "list_all isdigit (FormatUint n)"
proof (induction n rule: FormatUint.induct)
  case (1 n)
  show ?case
  proof (cases "n < 10")
    case True
    then show ?thesis
      by (subst FormatUint.simps) (simp add: isdigit_digit_char)
  next
    case False
    with 1 have "list_all isdigit (FormatUint (n div 10))" by simp
    with False show ?thesis
      by (subst FormatUint.simps) (simp add: isdigit_digit_char)
  qed
qed

lemma FormatUint_nonempty: "FormatUint n \<noteq> []"
  by (subst FormatUint.simps) simp

lemma FormatUint_val: "digits_val 0 (FormatUint n) = n"
proof (induction n rule: FormatUint.induct)
  case (1 n)
  show ?case
  proof (cases "n < 10")
    case True
    then show ?thesis
      by (subst FormatUint.simps) (simp add: of_char_digit_char)
  next
    case False
    with 1 have ih: "digits_val 0 (FormatUint (n div 10)) = n div 10" by simp
    have "digits_val 0 (FormatUint n)
            = digits_val 0 (FormatUint (n div 10) @ [digit_char (n mod 10)])"
      using False by (subst FormatUint.simps) simp
    also have "\<dots> = (n div 10) * 10 + n mod 10"
      by (simp add: digits_val_append ih of_char_digit_char)
    finally show ?thesis by simp
  qed
qed

lemma hd_FormatUint_isdigit: "isdigit (hd (FormatUint n))"
  using FormatUint_digits [of n] FormatUint_nonempty [of n]
  by (cases "FormatUint n") simp_all

lemma isdigit_not_sign: "isdigit c \<Longrightarrow> c \<noteq> CHR ''-'' \<and> c \<noteq> CHR ''+''"
  by (auto simp: isdigit_def)

lemma ParseUint_FormatUint: "n < 2 ^ 64 \<Longrightarrow> ParseUint (FormatUint n) = Inr n"
  by (simp add: ParseUint_def FormatUint_nonempty FormatUint_digits FormatUint_val)

lemma ParseInt_FormatInt:
  assumes "- (2 ^ 63) \<le> i" and "i < 2 ^ 63"
  shows "ParseInt (FormatInt i) = Inr i"
proof (cases "i < 0")
  case True
  with assms have b: "nat (- i) \<le> 2 ^ 63"
    by (simp add: nat_le_iff)
  then have "nat (- i) < 2 ^ 64"
    by (rule le_less_trans) simp
  then have "ParseUint (FormatUint (nat (- i))) = Inr (nat (- i))"
    by (rule ParseUint_FormatUint)
  with True b show ?thesis
    by (simp add: ParseInt_def FormatInt_def Let_def)
next
  case False
  with assms have b: "nat i < 2 ^ 63"
    by (simp add: nat_less_iff)
  then have "nat i < 2 ^ 64"
    by (rule less_trans) simp
  then have p: "ParseUint (FormatUint (nat i)) = Inr (nat i)"
    by (rule ParseUint_FormatUint)
  have "FormatUint (nat i) \<noteq> []"
    by (rule FormatUint_nonempty)
  moreover have "hd (FormatUint (nat i)) \<noteq> CHR ''-''" "hd (FormatUint (nat i)) \<noteq> CHR ''+''"
    using isdigit_not_sign [OF hd_FormatUint_isdigit [of "nat i"]] by simp_all
  ultimately show ?thesis
    using False b p by (simp add: ParseInt_def FormatInt_def Let_def)
qed

subsection \<open>Sign, then Validate\<close>

lemma TrimPrefix_empty: "TrimPrefix s [] = s"
  by (simp add: TrimPrefix_def)

lemma wrap64_id: "- (2 ^ 63) \<le> x \<Longrightarrow> x < 2 ^ 63 \<Longrightarrow> wrap64 x = x"
  by (simp add: wrap64_def)

text \<open>For a tolerance of \<open>d\<close> seconds whose nanoseconds fit 64 bits, the window that
  \<open>Validate\<close> computes at clock \<open>n\<close> holds every signing time within \<open>d\<close> seconds
  of \<open>n\<close>, before or after.\<close>

lemma window_contains:
  assumes d: "0 \<le> Duration s" "Duration s \<le> 9223372036"
    and near: "n - Duration s * Second \<le> t" "t \<le> n + Duration s * Second"
  shows "window_before s n \<le> Unix t \<and> Unix t \<le> window_after s n"
proof -
  from d have w1: "wrap64 (Duration s) = Duration s"
    by (intro wrap64_id) simp_all
  from d have w2: "wrap64 (Second * Duration s) = Second * Duration s"
    by (intro wrap64_id) (simp_all add: Second_def)
  from d have w3: "wrap64 (- Duration s) = - Duration s"
    by (intro wrap64_id) simp_all
  from d have w4: "wrap64 (- (Second * Duration s)) = - (Second * Duration s)"
    by (intro wrap64_id) (simp_all add: Second_def)
  have a: "window_after s n = (n + Duration s * Second) div Second"
    by (simp add: window_after_def Unix_def w1 w2 mult.commute)
  have b: "window_before s n = (n - Duration s * Second) div Second"
    by (simp add: window_before_def Unix_def w1 w3 w4 mult.commute)
  have pos: "0 < Second"
    by (simp add: Second_def)
  from near(1) pos have lo: "(n - Duration s * Second) div Second \<le> t div Second"
    by (rule zdiv_mono1)
  from near(2) pos have hi: "t div Second \<le> (n + Duration s * Second) div Second"
    by (rule zdiv_mono1)
  from lo hi show ?thesis
    unfolding a b Unix_def by (rule conjI)
qed

text \<open>
  C10.  A request signed by \<open>Sign\<close> with the empty prefix at clock \<open>t1\<close> is accepted by
  \<open>Validate\<close> of the same signer at clock \<open>t2\<close> (the result is \<open>None\<close>, Go's \<open>nil\<close>)
  whenever the signing time, in whole seconds, lies in the window that \<open>Validate\<close>
  computes from the signer's \<open>Duration\<close> at \<open>t2\<close>; the path and the two headers are the
  ones \<open>Sign\<close> left.  The first two hypotheses say that \<open>time.Now().Unix()\<close> is an
  \<open>int64\<close>.  This holds for every digest function, token, white list and tolerance.
\<close>

theorem Sign_Validate_roundtrip:
  assumes "- (2 ^ 63) \<le> Unix t1" and "Unix t1 < 2 ^ 63"
    and "window_before s t2 \<le> Unix t1" and "Unix t1 \<le> window_after s t2"
  shows "Validate md5 s t2 (Sign md5 s t1 req []) = None"
proof -
  have p: "ParseInt (FormatInt (Unix t1)) = Inr (Unix t1)"
    using assms(1,2) by (rule ParseInt_FormatInt)
  have ne: "headerTime \<noteq> headerToken"
    by (simp add: headerTime_def headerToken_def)
  have t: "Header_Get (Header (Sign md5 s t1 req [])) headerTime = FormatInt (Unix t1)"
    by (simp add: Sign_def Header_Get_def Header_Set_def Let_def)
  have k: "Header_Get (Header (Sign md5 s t1 req [])) headerToken
             = md5 (URLPath req @ FormatInt (Unix t1) @ Token s)"
    using ne by (simp add: Sign_def Header_Get_def Header_Set_def Let_def TrimPrefix_empty)
  have u: "URLPath (Sign md5 s t1 req []) = URLPath req"
    by (simp add: Sign_def Let_def)
  show ?thesis
    using assms(3,4) by (simp add: Validate_def Let_def t k u p)
qed

theorem Sign_Validate_roundtrip_witness:
  "- (2 ^ 63) \<le> Unix 1700000000000000000 \<and> Unix 1700000000000000000 < 2 ^ 63
   \<and> window_before \<lparr>Token = ''k'', Duration = 60, WhiteList = []\<rparr> 1700000030000000000
        \<le> Unix 1700000000000000000
   \<and> Unix 1700000000000000000
        \<le> window_after \<lparr>Token = ''k'', Duration = 60, WhiteList = []\<rparr> 1700000030000000000
   \<and> Validate (\<lambda>x. x) \<lparr>Token = ''k'', Duration = 60, WhiteList = []\<rparr> 1700000030000000000
        (Sign (\<lambda>x. x) \<lparr>Token = ''k'', Duration = 60, WhiteList = []\<rparr> 1700000000000000000
           \<lparr>URLPath = ''/v1/proxy'', Header = Map.empty\<rparr> []) = None"
proof -
  have h1: "- (2 ^ 63) \<le> Unix 1700000000000000000"
    by (simp add: Unix_def Second_def)
  have h2: "Unix 1700000000000000000 < 2 ^ 63"
    by (simp add: Unix_def Second_def)
  have h3: "window_before \<lparr>Token = ''k'', Duration = 60, WhiteList = []\<rparr> 1700000030000000000
              \<le> Unix 1700000000000000000"
    by (simp add: window_before_def wrap64_def Unix_def Second_def)
  have h4: "Unix 1700000000000000000
              \<le> window_after \<lparr>Token = ''k'', Duration = 60, WhiteList = []\<rparr> 1700000030000000000"
    by (simp add: window_after_def wrap64_def Unix_def Second_def)
  show ?thesis
    using h1 h2 h3 h4 Sign_Validate_roundtrip [OF h1 h2 h3 h4] by simp
qed

section \<open>Properties of the derivation\<close>

subsection \<open>Text search\<close>

lemma Contains_sublist: "Contains s sub \<longleftrightarrow> sublist sub s"
  by (induction s) (simp_all add: sublist_Cons_right)

lemma Contains_middle: "Contains (a @ b @ c) b"
  by (simp add: Contains_sublist)

subsection \<open>The expression checks that return nothing\<close>

lemma setExpr_checks_ParseExpr: "setExpr_checks (E\<lparr>ParseExpr := p\<rparr>) r = setExpr_checks E r"
  by (simp add: setExpr_checks_def Let_def)

lemma addMatchers_ParseExpr: "addMatchers (E\<lparr>ParseExpr := p\<rparr>) seen q ms = addMatchers E seen q ms"
  by (induction ms arbitrary: seen q) simp_all

lemma logqlExpr_ParseExpr: "logqlExpr (E\<lparr>ParseExpr := p\<rparr>) ns g = logqlExpr E ns g"
  by (simp add: logqlExpr_def)

lemma setExpr_switch_ParseExpr: "setExpr_switch (E\<lparr>ParseExpr := p\<rparr>) r = setExpr_switch E r"
  by (simp add: setExpr_switch_def addMatchers_ParseExpr logqlExpr_ParseExpr Let_def
      cong: AlertType.case_cong option.case_cong sum.case_cong if_cong)

text \<open>Whatever \<open>parser.ParseExpr\<close> answers, \<open>setExpr\<close> gives the same result: the parse
  error is built and dropped.\<close>

lemma setExpr_ParseExpr_unused: "setExpr (E\<lparr>ParseExpr := p\<rparr>) r = setExpr E r"
  by (simp add: setExpr_def setExpr_switch_ParseExpr setExpr_checks_ParseExpr
      split: prod.splits option.splits)

lemma contains_op_empty: "\<not> contains_op []"
  by (simp add: contains_op_def)

text \<open>
  C1.  The claim asks that a Monitor rule whose expression is empty or does not parse be
  rejected by \<open>setExpr\<close>.  The code accepts both: in the global namespace, without
  generator, the empty expression passes (first two conjuncts), and so does, in
  namespace \<open>team-a\<close>, an expression with an unclosed brace, which the parser rejects
  (third and fourth conjunct); \<open>getAlertRuleReq\<close> returns the rule with the empty
  expression for storing (last conjunct).
\<close>

theorem setExpr_accepts_empty_or_unparsable:
  "setExpr example_env empty_expr_rule = (empty_expr_rule, None)
   \<and> Expr empty_expr_rule = []
   \<and> ParseExpr example_env (Expr open_brace_rule) \<noteq> None
   \<and> setExpr example_env open_brace_rule = (open_brace_rule, None)
   \<and> (case getAlertRuleReq example_consts example_env example_db (\<lambda>s r u. Inr cpu_tpl)
              (Inr empty_expr_rule) ''c1'' ''kubegems-monitoring''
              ''/v1/observability/cluster/:cluster/namespaces/:namespace/monitor/alerts'' of
         Inl err \<Rightarrow> False
       | Inr req \<Rightarrow> Expr req = [] \<and> AlertType req = AlertTypeMonitor)"
proof -
  have e1: "setExpr example_env empty_expr_rule = (empty_expr_rule, None)"
    by (simp add: setExpr_def setExpr_switch_def setExpr_checks_def empty_expr_rule_def
        high_cpu_def example_env_def contains_op_empty Let_def)
  have e2: "Expr empty_expr_rule = []"
    by (simp add: empty_expr_rule_def high_cpu_def)
  have e3: "ParseExpr example_env (Expr open_brace_rule) \<noteq> None"
    by (simp add: open_brace_rule_def high_cpu_def example_env_def simple_ParseExpr_def dq_def)
  have e4: "setExpr example_env open_brace_rule = (open_brace_rule, None)"
    by (simp add: setExpr_def setExpr_switch_def setExpr_checks_def open_brace_rule_def
        high_cpu_def example_env_def contains_op_def dq_def Let_def)
  have e5: "(case getAlertRuleReq example_consts example_env example_db (\<lambda>s r u. Inr cpu_tpl)
              (Inr empty_expr_rule) ''c1'' ''kubegems-monitoring''
              ''/v1/observability/cluster/:cluster/namespaces/:namespace/monitor/alerts'' of
         Inl err \<Rightarrow> False
       | Inr req \<Rightarrow> Expr req = [] \<and> AlertType req = AlertTypeMonitor)"
    by (simp add: getAlertRuleReq_def setMessage_def setExpr_def setExpr_switch_def
        setExpr_checks_def setReceivers_def checkAlertLevels_def empty_expr_rule_def
        high_cpu_def example_env_def example_consts_def example_db_def contains_op_empty Let_def)
  from e1 e2 e3 e4 e5 show ?thesis by simp
qed

subsection \<open>\<open>setMessage\<close> and a message of the caller\<close>

text \<open>
  C3 as amended.  When the caller has set a message, \<open>setMessage\<close> leaves a Monitor rule
  with a metric generator as it is, the message included, and returns no error.
\<close>

theorem setMessage_existing_message:
  assumes "Message r \<noteq> []" and "AlertType r = AlertTypeMonitor" and "PromqlGenerator r \<noteq> None"
  shows "setMessage K r = (r, None)"
  using assms by (auto simp: setMessage_def split: option.splits)

theorem setMessage_existing_message_witness:
  "Message (high_cpu\<lparr>Message := ''cpu is high''\<rparr>) \<noteq> []
   \<and> AlertType (high_cpu\<lparr>Message := ''cpu is high''\<rparr>) = AlertTypeMonitor
   \<and> PromqlGenerator (high_cpu\<lparr>Message := ''cpu is high''\<rparr>) \<noteq> None
   \<and> setMessage example_consts (high_cpu\<lparr>Message := ''cpu is high''\<rparr>)
       = (high_cpu\<lparr>Message := ''cpu is high''\<rparr>, None)"
proof -
  have h: "Message (high_cpu\<lparr>Message := ''cpu is high''\<rparr>) \<noteq> []"
    "AlertType (high_cpu\<lparr>Message := ''cpu is high''\<rparr>) = AlertTypeMonitor"
    "PromqlGenerator (high_cpu\<lparr>Message := ''cpu is high''\<rparr>) \<noteq> None"
    by (simp_all add: high_cpu_def)
  from setMessage_existing_message [OF h, of example_consts] h show ?thesis
    by simp
qed

text \<open>In the other branches the message of the caller plays no part: for a Monitor rule
  without generator and for every Logging rule, the result is the one for any other
  message \<open>m\<close>.\<close>

lemma setMessage_message_unused:
  assumes "(AlertType r = AlertTypeMonitor \<and> PromqlGenerator r = None) \<or> AlertType r = AlertTypeLogging"
  shows "setMessage K (r\<lparr>Message := m\<rparr>) = setMessage K r"
  using assms by (auto simp: setMessage_def split: option.splits)

text \<open>The claim as stated fails on a Logging rule: the message the caller set is
  replaced.\<close>

theorem setMessage_overwrites_logging_message:
  "AlertType log_rule = AlertTypeLogging
   \<and> Message log_rule = ''errors in the log''
   \<and> Message (fst (setMessage example_consts log_rule)) \<noteq> Message log_rule"
  by (simp add: setMessage_def log_rule_def example_consts_def)

subsection \<open>\<open>setExpr\<close>: the namespace constraint and a second call\<close>

lemma addMatchers_snoc:
  "addMatchers E seen q (ms @ [m]) =
     (case addMatchers E seen q ms of
        Inl e \<Rightarrow> Inl e
      | Inr q1 \<Rightarrow>
          if m_Name m \<in> set seen \<union> m_Name ` set ms
          then Inl (DuplicatedLabelMatcher (m_String E m))
          else Inr (AddLabelMatchers E q1 m))"
  by (induction ms arbitrary: seen q) (auto split: sum.splits)

lemma setExpr_switch_frame:
  "setExpr_switch E r = (r1, e) \<Longrightarrow> Namespace r1 = Namespace r \<and> AlertType r1 = AlertType r"
  by (auto simp: setExpr_switch_def Let_def split: AlertType.splits option.splits sum.splits if_splits)

lemma setExpr_success:
  "setExpr E r = (r', None) \<longleftrightarrow> setExpr_switch E r = (r', None) \<and> setExpr_checks E r' = None"
  by (auto simp: setExpr_def split: prod.splits option.splits)

lemma setExpr_checks_namespace:
  assumes "setExpr_checks E r = None" and "Namespace r \<noteq> []" and "Namespace r \<noteq> GlobalAlertNamespace E"
  shows "Contains (Expr r) (''namespace='' @ [dq] @ Namespace r @ [dq])
       \<or> Contains (Expr r) (''namespace=~'' @ [dq] @ Namespace r @ [dq])"
  using assms by (auto simp: setExpr_checks_def Let_def split: if_splits)

lemma setExpr_switch_generator_success:
  assumes "setExpr_switch E r = (r', None)" and "AlertType r = AlertTypeMonitor"
    and "PromqlGenerator r = Some g" and "Namespace r \<noteq> []" and "Namespace r \<noteq> GlobalAlertNamespace E"
  shows "\<exists>tpl q q'. Tpl g = Some tpl \<and> promql_New E (tpl_Expr tpl) = Inr q
           \<and> addMatchers E [] q (LabelMatchers g @ [\<lparr>m_Type = MatchEqual E, m_Name = ''namespace'', m_Value = Namespace r\<rparr>]) = Inr q'
           \<and> r' = r\<lparr>PromqlGenerator := Some (g\<lparr>LabelMatchers := LabelMatchers g @ [\<lparr>m_Type = MatchEqual E, m_Name = ''namespace'', m_Value = Namespace r\<rparr>]\<rparr>),
                    Expr := q_String E q'\<rparr>"
  using assms by (auto simp: setExpr_switch_def Let_def split: option.splits sum.splits)

text \<open>With a metric generator the first call has appended the namespace matcher to the
  generator's matchers, so a second call on the rule as the first left it ends with the
  error of a duplicated label matcher, the expression of the first call still in place.\<close>

lemma setExpr_repeat_with_generator:
  assumes mon: "AlertType r = AlertTypeMonitor"
    and ns: "Namespace r \<noteq> []" "Namespace r \<noteq> GlobalAlertNamespace E"
    and ok: "setExpr E r = (r', None)"
    and gen: "PromqlGenerator r = Some g"
  shows "\<exists>r'' m. setExpr E r' = (r'', Some (DuplicatedLabelMatcher m)) \<and> Expr r'' = Expr r'"
proof -
  from ok have sw: "setExpr_switch E r = (r', None)"
    by (simp add: setExpr_success)
  define nsm where "nsm = \<lparr>m_Type = MatchEqual E, m_Name = ''namespace'', m_Value = Namespace r\<rparr>"
  from setExpr_switch_generator_success [OF sw mon gen ns]
  obtain tpl q q' where tpl: "Tpl g = Some tpl" and q: "promql_New E (tpl_Expr tpl) = Inr q"
    and add: "addMatchers E [] q (LabelMatchers g @ [nsm]) = Inr q'"
    and r': "r' = r\<lparr>PromqlGenerator := Some (g\<lparr>LabelMatchers := LabelMatchers g @ [nsm]\<rparr>),
                    Expr := q_String E q'\<rparr>"
    unfolding nsm_def by blast
  have again: "addMatchers E [] q ((LabelMatchers g @ [nsm]) @ [nsm])
                 = Inl (DuplicatedLabelMatcher (m_String E nsm))"
    by (subst addMatchers_snoc) (simp add: add)
  have "setExpr_switch E r'
          = (r'\<lparr>PromqlGenerator := Some (g\<lparr>LabelMatchers := (LabelMatchers g @ [nsm]) @ [nsm]\<rparr>)\<rparr>,
             Some (DuplicatedLabelMatcher (m_String E nsm)))"
    using mon ns tpl q again
    by (simp add: setExpr_switch_def r' Let_def nsm_def)
  then have "setExpr E r'
          = (r'\<lparr>PromqlGenerator := Some (g\<lparr>LabelMatchers := (LabelMatchers g @ [nsm]) @ [nsm]\<rparr>)\<rparr>,
             Some (DuplicatedLabelMatcher (m_String E nsm)))"
    by (simp add: setExpr_def)
  then show ?thesis
    by simp
qed

text \<open>
  C2 as amended.  For a Monitor rule of a namespace that is neither empty nor the global
  one, whenever \<open>setExpr\<close> succeeds the expression it leaves contains the text
  \<open>namespace="ns"\<close> or \<open>namespace=~"ns"\<close> for that namespace; and when the rule has no
  metric generator, a second call on the rule gives the same result, the same
  expression included.
\<close>

theorem setExpr_namespace_and_repeat:
  assumes mon: "AlertType r = AlertTypeMonitor"
    and ns: "Namespace r \<noteq> []" "Namespace r \<noteq> GlobalAlertNamespace E"
    and ok: "setExpr E r = (r', None)"
  shows "(Contains (Expr r') (''namespace='' @ [dq] @ Namespace r @ [dq])
          \<or> Contains (Expr r') (''namespace=~'' @ [dq] @ Namespace r @ [dq]))
       \<and> (PromqlGenerator r = None \<longrightarrow> setExpr E r' = (r', None))"
proof (intro conjI impI)
  from ok have sw: "setExpr_switch E r = (r', None)" and ch: "setExpr_checks E r' = None"
    by (simp_all add: setExpr_success)
  from sw have fr: "Namespace r' = Namespace r" "AlertType r' = AlertType r"
    by (simp_all add: setExpr_switch_frame)
  from ch ns fr show "Contains (Expr r') (''namespace='' @ [dq] @ Namespace r @ [dq])
          \<or> Contains (Expr r') (''namespace=~'' @ [dq] @ Namespace r @ [dq])"
    using setExpr_checks_namespace [of E r'] by simp
  assume none: "PromqlGenerator r = None"
  with mon have "setExpr_switch E r = (r, None)"
    by (simp add: setExpr_switch_def)
  with sw have "r' = r" by simp
  with ok show "setExpr E r' = (r', None)" by simp
qed

lemma high_cpu_first:
  "setExpr example_env high_cpu
     = (high_cpu\<lparr>PromqlGenerator := Some \<lparr>Scope = ''node'', Resource = ''cpu'', Rule = ''usage'',
            Unit = ''percent'',
            LabelMatchers = [\<lparr>m_Type = ''=~'', m_Name = ''pod'', m_Value = ''web-.*''\<rparr>,
                             \<lparr>m_Type = ''='', m_Name = ''namespace'', m_Value = ''team-a''\<rparr>],
            Tpl = Some cpu_tpl\<rparr>,
          Expr := ''node_cpu_usage{pod=~'' @ [dq] @ ''web-.*'' @ [dq] @ '',namespace='' @ [dq] @ ''team-a'' @ [dq] @ ''}''\<rparr>,
        None)"
  by (simp add: setExpr_def setExpr_switch_def setExpr_checks_def high_cpu_def cpu_tpl_def
      example_env_def selector_New_def selector_Add_def selector_String_def is_name_char_def
      isdigit_def matcher_text_def contains_op_def dq_def Let_def)

text \<open>The claim as stated fails on the rule of the scenario: the first call succeeds,
  the second call on the same rule is rejected.\<close>

theorem setExpr_second_call_rejected:
  "AlertType high_cpu = AlertTypeMonitor
   \<and> Namespace high_cpu = ''team-a''
   \<and> GlobalAlertNamespace example_env = ''kubegems-monitoring''
   \<and> snd (setExpr example_env high_cpu) = None
   \<and> snd (setExpr example_env (fst (setExpr example_env high_cpu)))
       = Some (DuplicatedLabelMatcher (''namespace='' @ [dq] @ ''team-a'' @ [dq]))"
  by (simp add: high_cpu_first)
    (simp add: setExpr_def setExpr_switch_def high_cpu_def cpu_tpl_def
      example_env_def selector_New_def selector_Add_def is_name_char_def
      isdigit_def matcher_text_def dq_def Let_def)

theorem setExpr_namespace_and_repeat_witness:
  "AlertType high_cpu = AlertTypeMonitor
   \<and> Namespace high_cpu \<noteq> [] \<and> Namespace high_cpu \<noteq> GlobalAlertNamespace example_env
   \<and> setExpr example_env high_cpu = (fst (setExpr example_env high_cpu), None)
   \<and> Expr (fst (setExpr example_env high_cpu))
       = ''node_cpu_usage{pod=~'' @ [dq] @ ''web-.*'' @ [dq] @ '',namespace='' @ [dq] @ ''team-a'' @ [dq] @ ''}''
   \<and> Contains (Expr (fst (setExpr example_env high_cpu))) (''namespace='' @ [dq] @ ''team-a'' @ [dq])
   \<and> AlertType custom_expr_rule = AlertTypeMonitor
   \<and> Namespace custom_expr_rule \<noteq> [] \<and> Namespace custom_expr_rule \<noteq> GlobalAlertNamespace example_env
   \<and> PromqlGenerator custom_expr_rule = None
   \<and> setExpr example_env custom_expr_rule = (custom_expr_rule, None)
   \<and> setExpr example_env (fst (setExpr example_env custom_expr_rule)) = (custom_expr_rule, None)"
proof -
  have h1: "AlertType high_cpu = AlertTypeMonitor"
    by (simp add: high_cpu_def)
  have h2: "Namespace high_cpu \<noteq> []" and h3: "Namespace high_cpu \<noteq> GlobalAlertNamespace example_env"
    by (simp_all add: high_cpu_def example_env_def)
  have h4: "setExpr example_env high_cpu = (fst (setExpr example_env high_cpu), None)"
    by (simp add: high_cpu_first)
  have n: "Namespace high_cpu = ''team-a''"
    by (simp add: high_cpu_def)
  have e: "Expr (fst (setExpr example_env high_cpu))
       = ''node_cpu_usage{pod=~'' @ [dq] @ ''web-.*'' @ [dq] @ '',namespace='' @ [dq] @ ''team-a'' @ [dq] @ ''}''"
    by (simp add: high_cpu_first)
  have nr: "\<not> Contains (Expr (fst (setExpr example_env high_cpu))) (''namespace=~'' @ [dq] @ ''team-a'' @ [dq])"
    unfolding e by (simp add: dq_def)
  have k1: "AlertType custom_expr_rule = AlertTypeMonitor"
    and k2: "Namespace custom_expr_rule \<noteq> []"
    and k3: "Namespace custom_expr_rule \<noteq> GlobalAlertNamespace example_env"
    and k5: "PromqlGenerator custom_expr_rule = None"
    by (simp_all add: custom_expr_rule_def high_cpu_def example_env_def)
  have k4: "setExpr example_env custom_expr_rule = (custom_expr_rule, None)"
    by (simp add: setExpr_def setExpr_switch_def setExpr_checks_def custom_expr_rule_def
        high_cpu_def example_env_def contains_op_def dq_def Let_def)
  from setExpr_namespace_and_repeat [OF h1 h2 h3 h4] nr n
  have c: "Contains (Expr (fst (setExpr example_env high_cpu))) (''namespace='' @ [dq] @ ''team-a'' @ [dq])"
    by simp
  from setExpr_namespace_and_repeat [OF k1 k2 k3 k4] k5
  have again: "setExpr example_env custom_expr_rule = (custom_expr_rule, None)"
    by simp
  from h1 h2 h3 h4 e c k1 k2 k3 k5 k4 again show ?thesis
    by simp
qed

subsection \<open>\<open>setExpr\<close> on a log generator\<close>

lemma Join_snoc_suffix: "\<exists>p. Join (xs @ [x]) sep = p @ x"
proof (induction xs)
  case Nil
  show ?case by simp
next
  case (Cons a xs)
  then obtain p where p: "Join (xs @ [x]) sep = p @ x" by blast
  obtain y ys where ys: "xs @ [x] = y # ys"
    by (cases "xs @ [x]") simp_all
  have "Join ((a # xs) @ [x]) sep = a @ sep @ Join (xs @ [x]) sep"
    by (simp add: ys)
  with p have "Join ((a # xs) @ [x]) sep = (a @ sep @ p) @ x" by simp
  then show ?case by blast
qed

lemma logqlExpr_namespace:
  "Contains (logqlExpr E ns g) (''namespace='' @ [dq] @ ns @ [dq])"
proof -
  obtain p where p: "Join (sort (map (m_String E) (lq_LabelMatchers g)) @ [''namespace='' @ [dq] @ ns @ [dq]]) '', ''
                       = p @ (''namespace='' @ [dq] @ ns @ [dq])"
    using Join_snoc_suffix by blast
  have "logqlExpr E ns g = (''sum(count_over_time({'' @ p) @ (''namespace='' @ [dq] @ ns @ [dq])
          @ (''} |~ `'' @ lq_Match g @ ''` ['' @ lq_Duration g @ '']))without(fluentd_thread)'')"
    unfolding logqlExpr_def Let_def p by simp
  then show ?thesis
    by (simp only: Contains_middle)
qed

lemma setExpr_checks_logging:
  assumes "AlertType r = AlertTypeLogging"
    and "Contains (Expr r) (''namespace='' @ [dq] @ Namespace r @ [dq])"
  shows "setExpr_checks E r = (if hasOp E (Expr r) then Some ComparisonOperator else None)"
  using assms by (simp add: setExpr_checks_def Let_def)

text \<open>
  C9 as amended.  For a Logging rule with a log generator whose lookback duration parses:
  a duration of more than ten minutes makes \<open>setExpr\<close> fail with the duration error; a
  duration of at most ten minutes, with a match pattern that compiles and at least one
  label matcher, makes \<open>setExpr\<close> store the windowed count expression, and the call
  succeeds exactly when that expression contains no comparison operator (otherwise it
  ends with the comparison-operator error).  The namespace check never fails here, the
  namespace matcher being part of the expression.
\<close>

theorem setExpr_logging_duration:
  assumes "AlertType r = AlertTypeLogging" and "LogqlGenerator r = Some g"
    and "ParseDuration E (lq_Duration g) = Inr d"
  shows "(d > ten_minutes \<longrightarrow> setExpr E r = (r, Some DurationTooLong))
       \<and> (d \<le> ten_minutes \<longrightarrow> regexp_Compile E (lq_Match g) = None \<longrightarrow> lq_LabelMatchers g \<noteq> [] \<longrightarrow>
            setExpr E r = (r\<lparr>Expr := logqlExpr E (Namespace r) g\<rparr>,
                           if hasOp E (logqlExpr E (Namespace r) g) then Some ComparisonOperator else None))"
proof (intro conjI impI)
  assume "d > ten_minutes"
  with assms show "setExpr E r = (r, Some DurationTooLong)"
    by (simp add: setExpr_def setExpr_switch_def)
next
  assume "d \<le> ten_minutes" and "regexp_Compile E (lq_Match g) = None" and "lq_LabelMatchers g \<noteq> []"
  with assms have sw: "setExpr_switch E r = (r\<lparr>Expr := logqlExpr E (Namespace r) g\<rparr>, None)"
    by (simp add: setExpr_switch_def)
  have "setExpr_checks E (r\<lparr>Expr := logqlExpr E (Namespace r) g\<rparr>)
          = (if hasOp E (logqlExpr E (Namespace r) g) then Some ComparisonOperator else None)"
    using assms(1) logqlExpr_namespace [of E "Namespace r" g]
    by (simp add: setExpr_checks_logging)
  with sw show "setExpr E r = (r\<lparr>Expr := logqlExpr E (Namespace r) g\<rparr>,
                           if hasOp E (logqlExpr E (Namespace r) g) then Some ComparisonOperator else None)"
    by (simp add: setExpr_def)
qed

lemma simple_ParseDuration_10m: "simple_ParseDuration ''10m'' = Inr 600000000000"
  by (simp add: simple_ParseDuration_def isdigit_def unit_ns_def Let_def)

lemma simple_ParseDuration_11m: "simple_ParseDuration ''11m'' = Inr 660000000000"
  by (simp add: simple_ParseDuration_def isdigit_def unit_ns_def Let_def)

lemma simple_ParseDuration_5m: "simple_ParseDuration ''5m'' = Inr 300000000000"
  by (simp add: simple_ParseDuration_def isdigit_def unit_ns_def Let_def)

theorem setExpr_logging_duration_witness:
  "AlertType log_rule = AlertTypeLogging
   \<and> LogqlGenerator log_rule = Some \<lparr>lq_Duration = ''10m'', lq_Match = ''error'',
         lq_LabelMatchers = [\<lparr>m_Type = ''='', m_Name = ''app'', m_Value = ''web''\<rparr>]\<rparr>
   \<and> ParseDuration example_env ''10m'' = Inr 600000000000
   \<and> 600000000000 \<le> ten_minutes
   \<and> regexp_Compile example_env ''error'' = None
   \<and> setExpr example_env log_rule
       = (log_rule\<lparr>Expr := ''sum(count_over_time({app='' @ [dq] @ ''web'' @ [dq] @ '', namespace=''
             @ [dq] @ ''team-a'' @ [dq] @ ''} |~ `error` [10m]))without(fluentd_thread)''\<rparr>, None)
   \<and> AlertType log_rule_11m = AlertTypeLogging
   \<and> LogqlGenerator log_rule_11m = Some \<lparr>lq_Duration = ''11m'', lq_Match = ''error'',
         lq_LabelMatchers = [\<lparr>m_Type = ''='', m_Name = ''app'', m_Value = ''web''\<rparr>]\<rparr>
   \<and> ParseDuration example_env ''11m'' = Inr 660000000000
   \<and> 660000000000 > ten_minutes
   \<and> setExpr example_env log_rule_11m = (log_rule_11m, Some DurationTooLong)"
proof -
  let ?g = "\<lparr>lq_Duration = ''10m'', lq_Match = ''error'',
         lq_LabelMatchers = [\<lparr>m_Type = ''='', m_Name = ''app'', m_Value = ''web''\<rparr>]\<rparr>"
  let ?g' = "\<lparr>lq_Duration = ''11m'', lq_Match = ''error'',
         lq_LabelMatchers = [\<lparr>m_Type = ''='', m_Name = ''app'', m_Value = ''web''\<rparr>]\<rparr>"
  have h1: "AlertType log_rule = AlertTypeLogging" and h2: "LogqlGenerator log_rule = Some ?g"
    by (simp_all add: log_rule_def)
  have h3: "ParseDuration example_env (lq_Duration ?g) = Inr 600000000000"
    by (simp add: example_env_def simple_ParseDuration_10m)
  have h4: "(600000000000::int) \<le> ten_minutes"
    by (simp add: ten_minutes_def)
  have h5: "regexp_Compile example_env (lq_Match ?g) = None"
    by (simp add: example_env_def plain_regexp_def)
  have e: "logqlExpr example_env (Namespace log_rule) ?g
             = ''sum(count_over_time({app='' @ [dq] @ ''web'' @ [dq] @ '', namespace=''
             @ [dq] @ ''team-a'' @ [dq] @ ''} |~ `error` [10m]))without(fluentd_thread)''"
    by (simp add: logqlExpr_def log_rule_def example_env_def matcher_text_def)
  have n: "\<not> hasOp example_env (logqlExpr example_env (Namespace log_rule) ?g)"
    unfolding e by (simp add: example_env_def contains_op_def dq_def)
  have k1: "AlertType log_rule_11m = AlertTypeLogging" and k2: "LogqlGenerator log_rule_11m = Some ?g'"
    by (simp_all add: log_rule_11m_def log_rule_def)
  have k3: "ParseDuration example_env (lq_Duration ?g') = Inr 660000000000"
    by (simp add: example_env_def simple_ParseDuration_11m)
  have k4: "(660000000000::int) > ten_minutes"
    by (simp add: ten_minutes_def)
  from setExpr_logging_duration [OF h1 h2 h3] setExpr_logging_duration [OF k1 k2 k3]
    h1 h2 h3 h4 h5 n e k1 k2 k3 k4
  show ?thesis
    by simp
qed

text \<open>The claim as stated fails on a rule whose match text holds \<open>>\<close>: five minutes, a
  pattern that compiles, one label matcher, and yet the rule is rejected.\<close>

theorem setExpr_logging_comparison_rejected:
  "AlertType log_rule_gt = AlertTypeLogging
   \<and> LogqlGenerator log_rule_gt = Some \<lparr>lq_Duration = ''5m'', lq_Match = ''a>b'',
        lq_LabelMatchers = [\<lparr>m_Type = ''='', m_Name = ''app'', m_Value = ''web''\<rparr>]\<rparr>
   \<and> ParseDuration example_env ''5m'' = Inr 300000000000
   \<and> 300000000000 \<le> ten_minutes
   \<and> regexp_Compile example_env ''a>b'' = None
   \<and> snd (setExpr example_env log_rule_gt) = Some ComparisonOperator"
  by (simp add: setExpr_def setExpr_switch_def setExpr_checks_def logqlExpr_def log_rule_gt_def
      log_rule_def example_env_def simple_ParseDuration_5m plain_regexp_def ten_minutes_def
      matcher_text_def contains_op_def dq_def Let_def)

subsection \<open>\<open>setReceivers\<close>\<close>

lemma channelDup_None_iff:
  "channelDup seen recs = None \<longleftrightarrow>
     distinct (map AlertChannelID recs) \<and> set (map AlertChannelID recs) \<inter> set seen = {}"
  by (induction recs arbitrary: seen) auto

lemma channelDup_Some: "channelDup seen recs = Some e \<Longrightarrow> \<exists>i. e = ChannelDuplicated i"
  by (induction recs arbitrary: seen) (auto split: if_splits)

lemma loadChannels_ids: "map AlertChannelID (fst (loadChannels D recs)) = map AlertChannelID recs"
  by (induction recs) (auto split: sum.splits prod.splits)

lemma loadChannels_intervals: "map Interval (fst (loadChannels D recs)) = map Interval recs"
  by (induction recs) (auto split: sum.splits prod.splits)

lemma loadChannels_ok:
  assumes "\<forall>rec \<in> set recs. \<exists>ch. First D (AlertChannelID rec) = Inr ch"
  shows "snd (loadChannels D recs) = None
       \<and> (\<forall>rec \<in> set (fst (loadChannels D recs)).
            \<exists>ch. AlertChannel rec = Some ch \<and> First D (AlertChannelID rec) = Inr ch)"
  using assms by (induction recs) (auto split: sum.splits prod.splits)

text \<open>
  C7 as amended.  An empty receiver list fails with the error of empty receivers, and a
  list with a channel ID twice fails with the error of a duplicated channel, the rule
  untouched in both cases.  A non-empty list without duplicates that omits the default
  channel is resolved successfully provided every channel it names and the default
  channel are found in the channel table: the receivers keep their order, one receiver
  for the default channel is appended at the end (so exactly one receiver names the
  default channel) with the interval of the first receiver, and every receiver holds the
  channel the table gives for its ID.
\<close>

theorem setReceivers_default_channel:
  "(Receivers r = [] \<longrightarrow> setReceivers D r = (r, Some ReceiversEmpty))
   \<and> (\<not> distinct (map AlertChannelID (Receivers r)) \<longrightarrow>
        (\<exists>i. setReceivers D r = (r, Some (ChannelDuplicated i))))
   \<and> (Receivers r \<noteq> [] \<longrightarrow> distinct (map AlertChannelID (Receivers r)) \<longrightarrow>
        DefaultChannelID D \<notin> set (map AlertChannelID (Receivers r)) \<longrightarrow>
        (\<forall>i \<in> insert (DefaultChannelID D) (set (map AlertChannelID (Receivers r))). \<exists>ch. First D i = Inr ch) \<longrightarrow>
        (\<exists>r'. setReceivers D r = (r', None)
           \<and> map AlertChannelID (Receivers r') = map AlertChannelID (Receivers r) @ [DefaultChannelID D]
           \<and> length (filter (\<lambda>rec. AlertChannelID rec = DefaultChannelID D) (Receivers r')) = 1
           \<and> map Interval (Receivers r') = map Interval (Receivers r) @ [Interval (hd (Receivers r))]
           \<and> (\<forall>rec \<in> set (Receivers r').
                \<exists>ch. AlertChannel rec = Some ch \<and> First D (AlertChannelID rec) = Inr ch)))"
proof (intro conjI impI)
  assume "Receivers r = []"
  then show "setReceivers D r = (r, Some ReceiversEmpty)"
    by (simp add: setReceivers_def)
next
  assume nd: "\<not> distinct (map AlertChannelID (Receivers r))"
  then obtain r0 rest where rs: "Receivers r = r0 # rest"
    by (cases "Receivers r") auto
  from nd have "channelDup [] (Receivers r) \<noteq> None"
    by (simp add: channelDup_None_iff)
  then obtain e where e: "channelDup [] (Receivers r) = Some e" by auto
  then obtain i where "e = ChannelDuplicated i"
    using channelDup_Some by blast
  with e rs show "\<exists>i. setReceivers D r = (r, Some (ChannelDuplicated i))"
    by (simp add: setReceivers_def)
next
  assume ne: "Receivers r \<noteq> []" and di: "distinct (map AlertChannelID (Receivers r))"
    and nodef: "DefaultChannelID D \<notin> set (map AlertChannelID (Receivers r))"
    and res: "\<forall>i \<in> insert (DefaultChannelID D) (set (map AlertChannelID (Receivers r))). \<exists>ch. First D i = Inr ch"
  from ne obtain r0 rest where rs: "Receivers r = r0 # rest"
    by (cases "Receivers r") auto
  define recs where "recs = Receivers r @
       [\<lparr>AlertRuleID = 0, AlertChannelID = DefaultChannelID D, AlertChannel = None, Interval = Interval r0\<rparr>]"
  from di have dup: "channelDup [] (Receivers r) = None"
    by (simp add: channelDup_None_iff)
  have all: "\<forall>rec \<in> set recs. \<exists>ch. First D (AlertChannelID rec) = Inr ch"
    using res by (auto simp: recs_def)
  obtain recs' where l: "loadChannels D recs = (recs', None)"
    using loadChannels_ok [OF all] by (cases "loadChannels D recs") auto
  have chans: "\<forall>rec \<in> set recs'. \<exists>ch. AlertChannel rec = Some ch \<and> First D (AlertChannelID rec) = Inr ch"
    using loadChannels_ok [OF all] l by simp
  have ids: "map AlertChannelID recs' = map AlertChannelID (Receivers r) @ [DefaultChannelID D]"
    using loadChannels_ids [of D recs] l by (simp add: recs_def)
  have ivs: "map Interval recs' = map Interval (Receivers r) @ [Interval (hd (Receivers r))]"
    using loadChannels_intervals [of D recs] l by (simp add: recs_def rs)
  from nodef have "\<forall>i \<in> set (map AlertChannelID (Receivers r)). \<not> (i = DefaultChannelID D)"
    by blast
  then have "filter (\<lambda>i. i = DefaultChannelID D) (map AlertChannelID (Receivers r)) = []"
    by (rule filter_False)
  then have "length (filter (\<lambda>i. i = DefaultChannelID D) (map AlertChannelID recs')) = 1"
    unfolding ids by simp
  then have one: "length (filter (\<lambda>rec. AlertChannelID rec = DefaultChannelID D) recs') = 1"
    by (simp add: filter_map comp_def)
  have "setReceivers D r = (r\<lparr>Receivers := recs'\<rparr>, None)"
    using rs dup nodef l by (simp add: setReceivers_def recs_def Let_def)
  with ids ivs one chans
  show "\<exists>r'. setReceivers D r = (r', None)
           \<and> map AlertChannelID (Receivers r') = map AlertChannelID (Receivers r) @ [DefaultChannelID D]
           \<and> length (filter (\<lambda>rec. AlertChannelID rec = DefaultChannelID D) (Receivers r')) = 1
           \<and> map Interval (Receivers r') = map Interval (Receivers r) @ [Interval (hd (Receivers r))]
           \<and> (\<forall>rec \<in> set (Receivers r').
                \<exists>ch. AlertChannel rec = Some ch \<and> First D (AlertChannelID rec) = Inr ch)"
    by simp
qed

lemma mail_only_resolved:
  "setReceivers example_db mail_only
     = (mail_only\<lparr>Receivers :=
          [\<lparr>AlertRuleID = 7, AlertChannelID = 2,
            AlertChannel = Some \<lparr>ch_ID = 2, ch_Name = ''ops-mail'',
                                 ChannelConfig = Some (Email ''ops@example.org'' ''secret'')\<rparr>,
            Interval = ''30m''\<rparr>,
           \<lparr>AlertRuleID = 0, AlertChannelID = 1,
            AlertChannel = Some \<lparr>ch_ID = 1, ch_Name = ''default'',
                                 ChannelConfig = Some (OtherChannel ''webhook'')\<rparr>,
            Interval = ''30m''\<rparr>]\<rparr>, None)"
  by (simp add: setReceivers_def mail_only_def high_cpu_def example_db_def)

theorem setReceivers_default_channel_witness:
  "Receivers mail_only \<noteq> []
   \<and> distinct (map AlertChannelID (Receivers mail_only))
   \<and> DefaultChannelID example_db \<notin> set (map AlertChannelID (Receivers mail_only))
   \<and> insert (DefaultChannelID example_db) (set (map AlertChannelID (Receivers mail_only))) = {1, 2}
   \<and> (\<exists>ch. First example_db 1 = Inr ch) \<and> (\<exists>ch. First example_db 2 = Inr ch)
   \<and> snd (setReceivers example_db mail_only) = None
   \<and> map AlertChannelID (Receivers (fst (setReceivers example_db mail_only))) = [2, 1]
   \<and> map Interval (Receivers (fst (setReceivers example_db mail_only))) = [''30m'', ''30m'']
   \<and> setReceivers example_db (mail_only\<lparr>Receivers := []\<rparr>)
        = (mail_only\<lparr>Receivers := []\<rparr>, Some ReceiversEmpty)
   \<and> \<not> distinct (map AlertChannelID (Receivers (mail_only\<lparr>Receivers := Receivers mail_only @ Receivers mail_only\<rparr>)))
   \<and> (\<exists>i. setReceivers example_db (mail_only\<lparr>Receivers := Receivers mail_only @ Receivers mail_only\<rparr>)
        = (mail_only\<lparr>Receivers := Receivers mail_only @ Receivers mail_only\<rparr>, Some (ChannelDuplicated i)))"
proof -
  have h1: "Receivers mail_only \<noteq> []"
    and h2: "distinct (map AlertChannelID (Receivers mail_only))"
    and h3: "DefaultChannelID example_db \<notin> set (map AlertChannelID (Receivers mail_only))"
    and h4: "\<forall>i \<in> insert (DefaultChannelID example_db) (set (map AlertChannelID (Receivers mail_only))).
         \<exists>ch. First example_db i = Inr ch"
    by (simp_all add: mail_only_def high_cpu_def example_db_def)
  have h5: "Receivers (mail_only\<lparr>Receivers := []\<rparr>) = []"
    by simp
  have h6: "\<not> distinct (map AlertChannelID (Receivers (mail_only\<lparr>Receivers := Receivers mail_only @ Receivers mail_only\<rparr>)))"
    by (simp add: mail_only_def high_cpu_def)
  have h7: "insert (DefaultChannelID example_db) (set (map AlertChannelID (Receivers mail_only))) = {1, 2}"
    and h8: "\<exists>ch. First example_db 1 = Inr ch" and h9: "\<exists>ch. First example_db 2 = Inr ch"
    by (simp_all add: mail_only_def high_cpu_def example_db_def)
  from setReceivers_default_channel [of mail_only example_db]
    setReceivers_default_channel [of "mail_only\<lparr>Receivers := []\<rparr>" example_db]
    setReceivers_default_channel [of "mail_only\<lparr>Receivers := Receivers mail_only @ Receivers mail_only\<rparr>" example_db]
    h1 h2 h3 h4 h5 h6 h7 h8 h9
  show ?thesis
    by (simp add: mail_only_resolved)
qed

text \<open>The claim as stated fails when a receiver names a channel that the table does not
  hold: the list is non-empty, free of duplicates and omits the default channel, and the
  resolution ends with the error of the query.\<close>

theorem setReceivers_dangling_channel_fails:
  "Receivers dangling_only \<noteq> []
   \<and> distinct (map AlertChannelID (Receivers dangling_only))
   \<and> DefaultChannelID example_db \<notin> set (map AlertChannelID (Receivers dangling_only))
   \<and> snd (setReceivers example_db dangling_only) = Some (External ''record not found'')"
  by (simp add: setReceivers_def dangling_only_def high_cpu_def example_db_def)

subsection \<open>Reads and the store\<close>

lemma Update_state_frame:
  "map ID (Update_state tbl v) = map ID tbl
   \<and> map Namespace (Update_state tbl v) = map Namespace tbl
   \<and> map Name (Update_state tbl v) = map Name tbl"
  by (induction tbl) (simp_all add: Update_state_def)

lemma refreshStates_result:
  assumes "refreshStates K io live tbl vs = (tbl', None)"
    and "\<forall>v \<in> set vs. \<forall>row \<in> set tbl. ID row = ID v \<longrightarrow> Namespace row = Namespace v \<and> Name row = Name v"
  shows "tbl' = map (\<lambda>row. if ID row \<in> ID ` set vs
                            then row\<lparr>State := liveState K live (Namespace row) (Name row)\<rparr> else row) tbl"
  using assms
proof (induction vs arbitrary: tbl)
  case Nil
  then show ?case by simp
next
  case (Cons v vs)
  let ?v' = "v\<lparr>State := liveState K live (Namespace v) (Name v)\<rparr>"
  let ?tbl1 = "Update_state tbl ?v'"
  have step: "refreshStates K io live tbl (v # vs)
                = (case updateErr io ?v' of Some err \<Rightarrow> (tbl, Some err)
                   | None \<Rightarrow> refreshStates K io live ?tbl1 vs)"
    by (simp add: liveState_def split: option.splits)
  with Cons.prems(1) have rec: "refreshStates K io live ?tbl1 vs = (tbl', None)"
    by (simp split: option.splits)
  have inv1: "\<forall>w \<in> set vs. \<forall>row \<in> set ?tbl1. ID row = ID w \<longrightarrow> Namespace row = Namespace w \<and> Name row = Name w"
    using Cons.prems(2) by (auto simp: Update_state_def)
  from Cons.IH [OF rec inv1]
  have "tbl' = map (\<lambda>row. if ID row \<in> ID ` set vs
                            then row\<lparr>State := liveState K live (Namespace row) (Name row)\<rparr> else row) ?tbl1" .
  also have "\<dots> = map (\<lambda>row. if ID row \<in> ID ` set (v # vs)
                            then row\<lparr>State := liveState K live (Namespace row) (Name row)\<rparr> else row) tbl"
    using Cons.prems(2) by (auto simp: Update_state_def)
  finally show ?case .
qed

lemma distinct_ID_eq:
  "distinct (map ID tbl) \<Longrightarrow> row \<in> set tbl \<Longrightarrow> v \<in> set tbl \<Longrightarrow> ID row = ID v \<Longrightarrow> row = v"
  by (meson distinct_map inj_onD)

text \<open>
  C4 as amended.  The rows of the table have distinct primary keys.  A listing read that
  gets through its refresh has written to the store the refreshed state of every Monitor
  rule of the cluster and namespace (the live state of the matching entry, or
  \<open>inactive\<close> when there is none) and left every other row as it was; the paged query
  that follows writes nothing more.  A detail read never writes to the store: the table
  after it is the table before it, and the refreshed state is only in the rule it
  returns.
\<close>

theorem reads_and_the_store:
  assumes "distinct (map ID tbl)"
  shows "(GetPromeAlertRules io = Inr live \<longrightarrow>
            ListMonitorAlertRule_refresh K io tbl cluster namespace = (tbl', None) \<longrightarrow>
            tbl' = map (\<lambda>row. if AlertType row = AlertTypeMonitor \<and> Cluster row = cluster
                                   \<and> Namespace row = namespace
                                then row\<lparr>State := liveState K live (Namespace row) (Name row)\<rparr>
                                else row) tbl)
       \<and> fst (ListMonitorAlertRule K PageList io tbl cluster namespace state)
           = fst (ListMonitorAlertRule_refresh K io tbl cluster namespace)
       \<and> fst (GetMonitorAlertRule K io tbl cluster namespace name) = tbl
       \<and> (GetPromeAlertRules io = Inr live \<longrightarrow>
            GetMonitorAlertRule K io tbl cluster namespace name = (tbl, Inr ret) \<longrightarrow>
            State ret = liveState K live namespace name)"
proof (intro conjI impI)
  assume live: "GetPromeAlertRules io = Inr live"
    and ok: "ListMonitorAlertRule_refresh K io tbl cluster namespace = (tbl', None)"
  let ?P = "\<lambda>row. AlertType row = AlertTypeMonitor \<and> Cluster row = cluster \<and> Namespace row = namespace"
  from ok live have rs: "refreshStates K io live tbl (filter ?P tbl) = (tbl', None)"
    by (simp add: ListMonitorAlertRule_refresh_def split: option.splits)
  have inv: "\<forall>v \<in> set (filter ?P tbl). \<forall>row \<in> set tbl.
               ID row = ID v \<longrightarrow> Namespace row = Namespace v \<and> Name row = Name v"
    using distinct_ID_eq [OF assms] by auto
  have mem: "\<And>row. row \<in> set tbl \<Longrightarrow> (ID row \<in> ID ` set (filter ?P tbl)) = ?P row"
    using distinct_ID_eq [OF assms] by auto
  from refreshStates_result [OF rs inv]
  have "tbl' = map (\<lambda>row. if ID row \<in> ID ` set (filter ?P tbl)
                            then row\<lparr>State := liveState K live (Namespace row) (Name row)\<rparr> else row) tbl" .
  also have "\<dots> = map (\<lambda>row. if ?P row
                            then row\<lparr>State := liveState K live (Namespace row) (Name row)\<rparr> else row) tbl"
    by (rule map_cong [OF refl]) (simp only: mem)
  finally show "tbl' = map (\<lambda>row. if ?P row
                            then row\<lparr>State := liveState K live (Namespace row) (Name row)\<rparr> else row) tbl" .
next
  show "fst (ListMonitorAlertRule K PageList io tbl cluster namespace state)
           = fst (ListMonitorAlertRule_refresh K io tbl cluster namespace)"
    by (simp add: ListMonitorAlertRule_def split: prod.splits option.splits)
next
  show "fst (GetMonitorAlertRule K io tbl cluster namespace name) = tbl"
    by (simp add: GetMonitorAlertRule_def split: option.splits sum.splits)
next
  assume "GetPromeAlertRules io = Inr live"
    and "GetMonitorAlertRule K io tbl cluster namespace name = (tbl, Inr ret)"
  then show "State ret = liveState K live namespace name"
    by (auto simp: GetMonitorAlertRule_def liveState_def split: option.splits)
qed

lemma example_live:
  "liveState example_key [''team-a-high-cpu'' \<mapsto> \<lparr>live_State = ''firing'', live_Alerts = []\<rparr>]
     ''team-a'' ''high-cpu'' = ''firing''"
  by (simp add: liveState_def example_key_def)

theorem reads_and_the_store_witness:
  "distinct (map ID [high_cpu, log_rule])
   \<and> GetPromeAlertRules example_read
       = Inr [''team-a-high-cpu'' \<mapsto> \<lparr>live_State = ''firing'', live_Alerts = []\<rparr>]
   \<and> ListMonitorAlertRule_refresh example_key example_read [high_cpu, log_rule] ''c1'' ''team-a''
       = ([high_cpu\<lparr>State := ''firing''\<rparr>, log_rule], None)
   \<and> GetMonitorAlertRule example_key example_read [high_cpu, log_rule] ''c1'' ''team-a'' ''high-cpu''
       = ([high_cpu, log_rule], Inr (high_cpu\<lparr>State := ''firing''\<rparr>))"
proof -
  have h: "distinct (map ID [high_cpu, log_rule])"
    by (simp add: high_cpu_def log_rule_def)
  have l: "GetPromeAlertRules example_read
       = Inr [''team-a-high-cpu'' \<mapsto> \<lparr>live_State = ''firing'', live_Alerts = []\<rparr>]"
    by (simp add: example_read_def)
  have a: "ListMonitorAlertRule_refresh example_key example_read [high_cpu, log_rule] ''c1'' ''team-a''
       = ([high_cpu\<lparr>State := ''firing''\<rparr>, log_rule], None)"
    by (simp add: ListMonitorAlertRule_refresh_def example_read_def example_key_def
        Update_state_def high_cpu_def log_rule_def)
  have b: "GetMonitorAlertRule example_key example_read [high_cpu, log_rule] ''c1'' ''team-a'' ''high-cpu''
       = ([high_cpu, log_rule], Inr (high_cpu\<lparr>State := ''firing''\<rparr>))"
    by (simp add: GetMonitorAlertRule_def example_read_def example_key_def find_first_def
        sortAlerts_def high_cpu_def log_rule_def)
  from reads_and_the_store [OF h, of example_read _ example_key "''c1''" "''team-a''"] h l a b
  show ?thesis by simp
qed

text \<open>The claim as stated fails on a detail read: the rule returned is firing, the row
  in the store still says inactive.\<close>

theorem GetMonitorAlertRule_writes_nothing:
  "State high_cpu = ''inactive''
   \<and> GetMonitorAlertRule example_key example_read [high_cpu] ''c1'' ''team-a'' ''high-cpu''
       = ([high_cpu], Inr (high_cpu\<lparr>State := ''firing''\<rparr>))
   \<and> map State (fst (GetMonitorAlertRule example_key example_read [high_cpu] ''c1'' ''team-a'' ''high-cpu''))
       = [''inactive'']"
  by (simp add: GetMonitorAlertRule_def example_read_def example_key_def find_first_def
      sortAlerts_def high_cpu_def)

subsection \<open>The routing resource and its inhibition rules\<close>

lemma addReceivers_InhibitRules:
  "addReceivers S r spec recs = Inr spec' \<Longrightarrow> InhibitRules spec' = InhibitRules spec"
  by (induction recs arbitrary: spec) (auto split: option.splits)

lemma amcfgSpec_InhibitRules:
  assumes "amcfgSpec S r = Inr spec"
  shows "InhibitRules spec = (if InhibitLabels r = [] then [] else [inhibitRule S r])"
proof -
  let ?spec0 = "\<lparr>spec_Route = \<lparr>rt_Receiver = NullReceiverName S,
                                  rt_GroupBy = [AlertNamespaceLabel S, AlertNameLabel S],
                                  rt_GroupWait = ''30s'', rt_GroupInterval = ''30s'',
                                  rt_Routes = []\<rparr>,
                    spec_Receivers = [NullReceiver S],
                    InhibitRules = []\<rparr>"
  from assms obtain spec1 where a: "addReceivers S r ?spec0 (Receivers r) = Inr spec1"
    and s: "spec = (if length (InhibitLabels r) > 0
                    then spec1\<lparr>InhibitRules := InhibitRules spec1 @ [inhibitRule S r]\<rparr> else spec1)"
    by (auto simp: amcfgSpec_def Let_def split: sum.splits if_splits)
  from addReceivers_InhibitRules [OF a] have "InhibitRules spec1 = []" by simp
  with s show ?thesis by simp
qed

lemma CreateOrUpdate_stored:
  assumes "CreateOrUpdate io k sel put c key obj f = (c', None)"
    and "\<And>m c. sel (put m c) = m" and "\<And>v c. sel (called v k c) = sel c"
  shows "\<exists>base obj'. f base = Inr obj' \<and> sel c' key = Some obj'"
  using assms
  by (auto simp: CreateOrUpdate_def Let_def split: option.splits sum.splits if_splits)

lemma checkAlertLevels_inhibit:
  "checkAlertLevels r = None \<Longrightarrow> length (AlertLevels r) > 1 \<Longrightarrow> InhibitLabels r \<noteq> []"
  by (auto simp: checkAlertLevels_def split: if_splits option.splits)

text \<open>
  C5 as amended.  After a successful \<open>syncAlertmanagerConfig\<close> the routing resource of the
  rule holds exactly one inhibition rule when the rule's inhibit labels are non-empty,
  and none when they are empty; the number of severity levels plays no part.  The
  inhibition rule has the critical severity as source, the error severity as target,
  both scoped to the namespace and the name of the rule, and its equal-set is the inhibit
  labels followed by the namespace and rule-name labels.  Hence a rule that passed
  \<open>checkAlertLevels\<close> with more than one level has that one inhibition rule, and a rule
  with a single level and no inhibit labels has none.
\<close>

theorem syncAlertmanagerConfig_inhibit_rules:
  assumes "syncAlertmanagerConfig S io c r = (c', None)"
  shows "\<exists>amcfg spec. AlertmanagerConfigs c' (Namespace r, Name r) = Some amcfg
           \<and> am_Spec amcfg = Some spec
           \<and> InhibitRules spec = (if InhibitLabels r = [] then [] else [inhibitRule S r])
           \<and> Equal (inhibitRule S r) = InhibitLabels r @ [AlertNamespaceLabel S, AlertNameLabel S]
           \<and> (checkAlertLevels r = None \<longrightarrow> length (AlertLevels r) > 1 \<longrightarrow>
                InhibitRules spec = [inhibitRule S r])
           \<and> (length (AlertLevels r) = 1 \<longrightarrow> InhibitLabels r = [] \<longrightarrow> InhibitRules spec = [])"
proof -
  let ?f = "\<lambda>amcfg. case amcfgSpec S r of
                   Inl err \<Rightarrow> Inl err
                 | Inr spec \<Rightarrow> Inr (amcfg\<lparr>am_Spec := Some spec\<rparr>)"
  from assms have "CreateOrUpdate io KAlertmanagerConfig AlertmanagerConfigs put_AlertmanagerConfigs c
       (Namespace r, Name r) \<lparr>am_Labels = ConfigLabels S (Name r), am_Spec = None\<rparr> ?f = (c', None)"
    by (simp add: syncAlertmanagerConfig_def)
  then obtain base amcfg where f: "?f base = Inr amcfg"
    and st: "AlertmanagerConfigs c' (Namespace r, Name r) = Some amcfg"
    using CreateOrUpdate_stored [where sel = AlertmanagerConfigs and put = put_AlertmanagerConfigs]
    by (fastforce simp: put_AlertmanagerConfigs_def called_def)
  from f obtain spec where sp: "amcfgSpec S r = Inr spec" and am: "am_Spec amcfg = Some spec"
    by (auto split: sum.splits)
  have inh: "InhibitRules spec = (if InhibitLabels r = [] then [] else [inhibitRule S r])"
    using sp by (rule amcfgSpec_InhibitRules)
  have eq: "Equal (inhibitRule S r) = InhibitLabels r @ [AlertNamespaceLabel S, AlertNameLabel S]"
    by (simp add: inhibitRule_def)
  from st am inh eq checkAlertLevels_inhibit [of r] show ?thesis
    by auto
qed


lemma two_levels_synced:
  "syncAlertmanagerConfig example_sync healthy empty_cluster two_levels
     = (\<lparr>Secrets = Map.empty, PrometheusRules = Map.empty,
         AlertmanagerConfigs = [(''team-a'', ''high-cpu'') \<mapsto>
           \<lparr>am_Labels = [(''alertmanagerconfig-type'', ''monitor''),
                          (''alertmanagerconfig-name'', ''high-cpu'')],
            am_Spec = Some
              \<lparr>spec_Route = \<lparr>rt_Receiver = ''null'',
                              rt_GroupBy = [''gems_namespace'', ''gems_alertname''],
                              rt_GroupWait = ''30s'', rt_GroupInterval = ''30s'',
                              rt_Routes = [\<lparr>cr_Receiver = ''default'', cr_RepeatInterval = ''1h'',
                                            cr_Continue = True,
                                            cr_Matchers = ruleMatchers example_sync two_levels\<rparr>]\<rparr>,
               spec_Receivers = [\<lparr>rc_Name = ''null'', rc_Config = []\<rparr>,
                                 \<lparr>rc_Name = ''default'', rc_Config = []\<rparr>],
               InhibitRules = [inhibitRule example_sync two_levels]\<rparr>\<rparr>],
         calls = [(VGet, KAlertmanagerConfig), (VCreate, KAlertmanagerConfig)]\<rparr>, None)"
  by (simp add: syncAlertmanagerConfig_def CreateOrUpdate_def amcfgSpec_def called_def
      put_AlertmanagerConfigs_def two_levels_def high_cpu_resolved_def high_cpu_def
      default_channel_def example_sync_def healthy_def empty_cluster_def Let_def)

theorem syncAlertmanagerConfig_inhibit_rules_witness:
  "snd (syncAlertmanagerConfig example_sync healthy empty_cluster two_levels) = None
   \<and> checkAlertLevels two_levels = None
   \<and> length (AlertLevels two_levels) = 2
   \<and> (\<exists>amcfg spec.
         AlertmanagerConfigs (fst (syncAlertmanagerConfig example_sync healthy empty_cluster two_levels))
           (''team-a'', ''high-cpu'') = Some amcfg
         \<and> am_Spec amcfg = Some spec
         \<and> InhibitRules spec = [inhibitRule example_sync two_levels])
   \<and> Equal (inhibitRule example_sync two_levels) = [''pod'', ''gems_namespace'', ''gems_alertname'']"
proof -
  have h: "syncAlertmanagerConfig example_sync healthy empty_cluster two_levels
             = (fst (syncAlertmanagerConfig example_sync healthy empty_cluster two_levels), None)"
    by (simp add: two_levels_synced)
  have l: "checkAlertLevels two_levels = None" "length (AlertLevels two_levels) = 2"
    "Namespace two_levels = ''team-a''" "Name two_levels = ''high-cpu''"
    "InhibitLabels two_levels = [''pod'']"
    by (simp_all add: checkAlertLevels_def two_levels_def high_cpu_resolved_def high_cpu_def)
  have e: "Equal (inhibitRule example_sync two_levels) = [''pod'', ''gems_namespace'', ''gems_alertname'']"
    by (simp add: inhibitRule_def l example_sync_def)
  have n: "snd (syncAlertmanagerConfig example_sync healthy empty_cluster two_levels) = None"
    by (simp add: two_levels_synced)
  from syncAlertmanagerConfig_inhibit_rules [OF h] n l e show ?thesis
    by auto
qed

text \<open>The claim as stated fails on a rule with one severity level and one inhibit label:
  it passes \<open>checkAlertLevels\<close>, and its routing resource holds an inhibition rule.\<close>

theorem single_level_with_inhibit_rule:
  "length (AlertLevels one_level_inhibit) = 1
   \<and> checkAlertLevels one_level_inhibit = None
   \<and> snd (syncAlertmanagerConfig example_sync healthy empty_cluster one_level_inhibit) = None
   \<and> map_option (\<lambda>amcfg. map_option (\<lambda>spec. length (InhibitRules spec)) (am_Spec amcfg))
        (AlertmanagerConfigs
           (fst (syncAlertmanagerConfig example_sync healthy empty_cluster one_level_inhibit))
           (''team-a'', ''high-cpu'')) = Some (Some 1)"
  by (simp add: syncAlertmanagerConfig_def CreateOrUpdate_def amcfgSpec_def called_def
      put_AlertmanagerConfigs_def checkAlertLevels_def one_level_inhibit_def
      high_cpu_resolved_def high_cpu_def
      default_channel_def example_sync_def healthy_def empty_cluster_def Let_def)

subsection \<open>The order of the three stages\<close>

lemma CreateOrUpdate_calls:
  assumes "CreateOrUpdate io k sel put c key obj f = (c', e)"
    and "\<And>m c. calls (put m c) = calls c"
  shows "\<exists>vs. calls c' = calls c @ map (\<lambda>v. (v, k)) vs"
proof -
  from assms have "calls c' = calls c @ map (\<lambda>v. (v, k)) [VGet]
      \<or> calls c' = calls c @ map (\<lambda>v. (v, k)) [VGet, VCreate]
      \<or> calls c' = calls c @ map (\<lambda>v. (v, k)) [VGet, VUpdate]"
    by (auto simp: CreateOrUpdate_def called_def Let_def split: option.splits sum.splits if_splits)
  then show ?thesis by blast
qed

lemma CreateOrUpdate_frame:
  assumes "CreateOrUpdate io k sel put c key obj f = (c', e)"
    and "\<And>m c. other (put m c) = other c" and "\<And>v c. other (called v k c) = other c"
  shows "other c' = other c"
  using assms
  by (auto simp: CreateOrUpdate_def Let_def split: option.splits sum.splits if_splits)

lemma syncEmailSecret_frame:
  assumes "syncEmailSecret S io c r = (c', e)"
  shows "PrometheusRules c' = PrometheusRules c \<and> AlertmanagerConfigs c' = AlertmanagerConfigs c
       \<and> (\<exists>vs. calls c' = calls c @ map (\<lambda>v. (v, KSecret)) vs)"
proof (cases "collectEmails S [] (Receivers r)")
  case (Inl err)
  with assms have "c' = c" by (simp add: syncEmailSecret_def)
  then show ?thesis by simp
next
  case (Inr emails)
  with assms obtain obj f where cu: "CreateOrUpdate io KSecret Secrets put_Secrets c
       (Namespace r, EmailSecretName S) obj f = (c', e)"
    by (simp add: syncEmailSecret_def)
  have "PrometheusRules c' = PrometheusRules c"
    by (rule CreateOrUpdate_frame [OF cu]) (simp_all add: put_Secrets_def called_def)
  moreover have "AlertmanagerConfigs c' = AlertmanagerConfigs c"
    by (rule CreateOrUpdate_frame [OF cu]) (simp_all add: put_Secrets_def called_def)
  moreover have "\<exists>vs. calls c' = calls c @ map (\<lambda>v. (v, KSecret)) vs"
    by (rule CreateOrUpdate_calls [OF cu]) (simp add: put_Secrets_def)
  ultimately show ?thesis by simp
qed

lemma syncPrometheusRule_frame:
  assumes "syncPrometheusRule S io c r = (c', e)"
  shows "Secrets c' = Secrets c \<and> AlertmanagerConfigs c' = AlertmanagerConfigs c
       \<and> (\<exists>vs. calls c' = calls c @ map (\<lambda>v. (v, KPrometheusRule)) vs)"
proof -
  from assms obtain obj f where cu: "CreateOrUpdate io KPrometheusRule PrometheusRules
       put_PrometheusRules c (Namespace r, Name r) obj f = (c', e)"
    by (simp add: syncPrometheusRule_def)
  have "Secrets c' = Secrets c"
    by (rule CreateOrUpdate_frame [OF cu]) (simp_all add: put_PrometheusRules_def called_def)
  moreover have "AlertmanagerConfigs c' = AlertmanagerConfigs c"
    by (rule CreateOrUpdate_frame [OF cu]) (simp_all add: put_PrometheusRules_def called_def)
  moreover have "\<exists>vs. calls c' = calls c @ map (\<lambda>v. (v, KPrometheusRule)) vs"
    by (rule CreateOrUpdate_calls [OF cu]) (simp add: put_PrometheusRules_def)
  ultimately show ?thesis by simp
qed

lemma syncAlertmanagerConfig_frame:
  assumes "syncAlertmanagerConfig S io c r = (c', e)"
  shows "Secrets c' = Secrets c \<and> PrometheusRules c' = PrometheusRules c
       \<and> (\<exists>vs. calls c' = calls c @ map (\<lambda>v. (v, KAlertmanagerConfig)) vs)"
proof -
  from assms obtain obj f where cu: "CreateOrUpdate io KAlertmanagerConfig AlertmanagerConfigs
       put_AlertmanagerConfigs c (Namespace r, Name r) obj f = (c', e)"
    by (simp add: syncAlertmanagerConfig_def)
  have "Secrets c' = Secrets c"
    by (rule CreateOrUpdate_frame [OF cu]) (simp_all add: put_AlertmanagerConfigs_def called_def)
  moreover have "PrometheusRules c' = PrometheusRules c"
    by (rule CreateOrUpdate_frame [OF cu]) (simp_all add: put_AlertmanagerConfigs_def called_def)
  moreover have "\<exists>vs. calls c' = calls c @ map (\<lambda>v. (v, KAlertmanagerConfig)) vs"
    by (rule CreateOrUpdate_calls [OF cu]) (simp add: put_AlertmanagerConfigs_def)
  ultimately show ?thesis by simp
qed

text \<open>
  C6.  With the client of the cluster at hand, let \<open>(c1, e1)\<close> be the outcome of the
  secret stage on the cluster \<open>c\<close>, \<open>(c2, e2)\<close> that of the evaluation-rule stage on
  \<open>c1\<close>, and \<open>(c3, e3)\<close> that of the routing stage on \<open>c2\<close>.  If the secret stage
  fails, \<open>syncMonitorAlertRule\<close> ends in the cluster \<open>c1\<close> with that error wrapped as
  \<open>sync secret failed\<close>: only requests on the secret were made, and the evaluation rules
  and routing resources are as before.  If it succeeds and the evaluation-rule stage
  fails, the result is \<open>c2\<close> with the error wrapped as \<open>sync prometheusrule failed\<close>, the
  routing resources as before, the requests on the secret all before those on the
  evaluation rule.  If both succeed and the routing stage fails, the error is wrapped as
  \<open>sync alertmanagerconfig failed\<close>.  If all three succeed the result is \<open>nil\<close>.  The
  requests are always made in the order secret, evaluation rule, routing resource.
  (\<open>errWrap\<close> is \<open>errors.Wrap\<close> for every error value.)
\<close>

theorem syncMonitorAlertRule_stages:
  assumes cl: "ClientOf io (Cluster r) = None"
    and s1: "syncEmailSecret S io c r = (c1, e1)"
    and s2: "syncPrometheusRule S io c1 r = (c2, e2)"
    and s3: "syncAlertmanagerConfig S io c2 r = (c3, e3)"
  shows "(\<forall>err. e1 = Some err \<longrightarrow>
            syncMonitorAlertRule S io c r = (c1, Some (errWrap err ''sync secret failed''))
            \<and> PrometheusRules c1 = PrometheusRules c
            \<and> AlertmanagerConfigs c1 = AlertmanagerConfigs c
            \<and> (\<exists>a. calls c1 = calls c @ map (\<lambda>v. (v, KSecret)) a))
       \<and> (\<forall>err. e1 = None \<longrightarrow> e2 = Some err \<longrightarrow>
            syncMonitorAlertRule S io c r = (c2, Some (errWrap err ''sync prometheusrule failed''))
            \<and> AlertmanagerConfigs c2 = AlertmanagerConfigs c
            \<and> (\<exists>a b. calls c2 = calls c @ map (\<lambda>v. (v, KSecret)) a
                                   @ map (\<lambda>v. (v, KPrometheusRule)) b))
       \<and> (\<forall>err. e1 = None \<longrightarrow> e2 = None \<longrightarrow> e3 = Some err \<longrightarrow>
            syncMonitorAlertRule S io c r = (c3, Some (errWrap err ''sync alertmanagerconfig failed'')))
       \<and> (e1 = None \<longrightarrow> e2 = None \<longrightarrow> e3 = None \<longrightarrow> syncMonitorAlertRule S io c r = (c3, None))
       \<and> (e1 = None \<longrightarrow> e2 = None \<longrightarrow>
            (\<exists>a b d. calls c3 = calls c @ map (\<lambda>v. (v, KSecret)) a
                           @ map (\<lambda>v. (v, KPrometheusRule)) b
                           @ map (\<lambda>v. (v, KAlertmanagerConfig)) d))"
proof -
  from syncEmailSecret_frame [OF s1] obtain a where
    f1: "PrometheusRules c1 = PrometheusRules c" "AlertmanagerConfigs c1 = AlertmanagerConfigs c"
    and k1: "calls c1 = calls c @ map (\<lambda>v. (v, KSecret)) a"
    by blast
  from syncPrometheusRule_frame [OF s2] obtain b where
    f2: "AlertmanagerConfigs c2 = AlertmanagerConfigs c1"
    and k2: "calls c2 = calls c1 @ map (\<lambda>v. (v, KPrometheusRule)) b"
    by blast
  from syncAlertmanagerConfig_frame [OF s3] obtain d where
    k3: "calls c3 = calls c2 @ map (\<lambda>v. (v, KAlertmanagerConfig)) d"
    by blast
  have r1: "\<And>err. e1 = Some err \<Longrightarrow>
      syncMonitorAlertRule S io c r = (c1, Some (errWrap err ''sync secret failed''))"
    using cl s1 by (simp add: syncMonitorAlertRule_def)
  have r2: "\<And>err. e1 = None \<Longrightarrow> e2 = Some err \<Longrightarrow>
      syncMonitorAlertRule S io c r = (c2, Some (errWrap err ''sync prometheusrule failed''))"
    using cl s1 s2 by (simp add: syncMonitorAlertRule_def)
  have r3: "\<And>err. e1 = None \<Longrightarrow> e2 = None \<Longrightarrow> e3 = Some err \<Longrightarrow>
      syncMonitorAlertRule S io c r = (c3, Some (errWrap err ''sync alertmanagerconfig failed''))"
    using cl s1 s2 s3 by (simp add: syncMonitorAlertRule_def)
  have r4: "e1 = None \<Longrightarrow> e2 = None \<Longrightarrow> e3 = None \<Longrightarrow> syncMonitorAlertRule S io c r = (c3, None)"
    using cl s1 s2 s3 by (simp add: syncMonitorAlertRule_def)
  have k12: "calls c2 = calls c @ map (\<lambda>v. (v, KSecret)) a @ map (\<lambda>v. (v, KPrometheusRule)) b"
    using k1 k2 by simp
  have k123: "calls c3 = calls c @ map (\<lambda>v. (v, KSecret)) a @ map (\<lambda>v. (v, KPrometheusRule)) b
                 @ map (\<lambda>v. (v, KAlertmanagerConfig)) d"
    using k12 k3 by simp
  have A: "\<forall>err. e1 = Some err \<longrightarrow>
            syncMonitorAlertRule S io c r = (c1, Some (errWrap err ''sync secret failed''))
            \<and> PrometheusRules c1 = PrometheusRules c
            \<and> AlertmanagerConfigs c1 = AlertmanagerConfigs c
            \<and> (\<exists>a. calls c1 = calls c @ map (\<lambda>v. (v, KSecret)) a)"
    using r1 f1 k1 by blast
  have f12: "AlertmanagerConfigs c2 = AlertmanagerConfigs c"
    using f1 f2 by simp
  have B: "\<forall>err. e1 = None \<longrightarrow> e2 = Some err \<longrightarrow>
            syncMonitorAlertRule S io c r = (c2, Some (errWrap err ''sync prometheusrule failed''))
            \<and> AlertmanagerConfigs c2 = AlertmanagerConfigs c
            \<and> (\<exists>a b. calls c2 = calls c @ map (\<lambda>v. (v, KSecret)) a
                                   @ map (\<lambda>v. (v, KPrometheusRule)) b)"
    using r2 f12 k12 by blast
  have C: "\<forall>err. e1 = None \<longrightarrow> e2 = None \<longrightarrow> e3 = Some err \<longrightarrow>
            syncMonitorAlertRule S io c r = (c3, Some (errWrap err ''sync alertmanagerconfig failed''))"
    using r3 by blast
  have D: "e1 = None \<longrightarrow> e2 = None \<longrightarrow> e3 = None \<longrightarrow> syncMonitorAlertRule S io c r = (c3, None)"
    using r4 by blast
  have E: "e1 = None \<longrightarrow> e2 = None \<longrightarrow>
            (\<exists>a b d. calls c3 = calls c @ map (\<lambda>v. (v, KSecret)) a
                           @ map (\<lambda>v. (v, KPrometheusRule)) b
                           @ map (\<lambda>v. (v, KAlertmanagerConfig)) d)"
    using k123 by blast
  show ?thesis
    using A B C D E by - (intro conjI; assumption)
qed

lemma rules_down_secret:
  "syncEmailSecret example_sync rules_down empty_cluster high_cpu_resolved
     = (\<lparr>Secrets = [(''team-a'', ''kubegems-email-password'') \<mapsto>
            \<lparr>sec_Labels = [(''type'', ''email-secret'')], sec_Type = ''Opaque'', sec_Data = []\<rparr>],
         PrometheusRules = Map.empty, AlertmanagerConfigs = Map.empty,
         calls = [(VGet, KSecret), (VCreate, KSecret)]\<rparr>, None)"
  by (simp add: syncEmailSecret_def CreateOrUpdate_def called_def put_Secrets_def
      high_cpu_resolved_def high_cpu_def default_channel_def example_sync_def rules_down_def
      healthy_def empty_cluster_def Let_def)

lemma rules_down_rule:
  "syncPrometheusRule example_sync rules_down
     \<lparr>Secrets = [(''team-a'', ''kubegems-email-password'') \<mapsto>
            \<lparr>sec_Labels = [(''type'', ''email-secret'')], sec_Type = ''Opaque'', sec_Data = []\<rparr>],
      PrometheusRules = Map.empty, AlertmanagerConfigs = Map.empty,
      calls = [(VGet, KSecret), (VCreate, KSecret)]\<rparr> high_cpu_resolved
     = (\<lparr>Secrets = [(''team-a'', ''kubegems-email-password'') \<mapsto>
            \<lparr>sec_Labels = [(''type'', ''email-secret'')], sec_Type = ''Opaque'', sec_Data = []\<rparr>],
         PrometheusRules = Map.empty, AlertmanagerConfigs = Map.empty,
         calls = [(VGet, KSecret), (VCreate, KSecret), (VGet, KPrometheusRule)]\<rparr>,
        Some (External ''connection refused''))"
  by (simp add: syncPrometheusRule_def CreateOrUpdate_def called_def
      high_cpu_resolved_def high_cpu_def rules_down_def healthy_def Let_def)

theorem syncMonitorAlertRule_stages_witness:
  "ClientOf rules_down (Cluster high_cpu_resolved) = None
   \<and> snd (syncEmailSecret example_sync rules_down empty_cluster high_cpu_resolved) = None
   \<and> snd (syncPrometheusRule example_sync rules_down
            (fst (syncEmailSecret example_sync rules_down empty_cluster high_cpu_resolved))
            high_cpu_resolved) = Some (External ''connection refused'')
   \<and> snd (syncMonitorAlertRule example_sync rules_down empty_cluster high_cpu_resolved)
       = Some (Wrap (External ''connection refused'') ''sync prometheusrule failed'')
   \<and> calls (fst (syncMonitorAlertRule example_sync rules_down empty_cluster high_cpu_resolved))
       = [(VGet, KSecret), (VCreate, KSecret), (VGet, KPrometheusRule)]
   \<and> AlertmanagerConfigs (fst (syncMonitorAlertRule example_sync rules_down empty_cluster high_cpu_resolved))
       = Map.empty"
proof -
  let ?c1 = "fst (syncEmailSecret example_sync rules_down empty_cluster high_cpu_resolved)"
  let ?c2 = "fst (syncPrometheusRule example_sync rules_down ?c1 high_cpu_resolved)"
  have cl: "ClientOf rules_down (Cluster high_cpu_resolved) = None"
    by (simp add: rules_down_def healthy_def)
  have s1: "syncEmailSecret example_sync rules_down empty_cluster high_cpu_resolved = (?c1, None)"
    by (simp add: rules_down_secret)
  have s2: "syncPrometheusRule example_sync rules_down ?c1 high_cpu_resolved
              = (?c2, Some (External ''connection refused''))"
    by (simp add: rules_down_secret rules_down_rule)
  have s3: "syncAlertmanagerConfig example_sync rules_down ?c2 high_cpu_resolved
              = (fst (syncAlertmanagerConfig example_sync rules_down ?c2 high_cpu_resolved),
                 snd (syncAlertmanagerConfig example_sync rules_down ?c2 high_cpu_resolved))"
    by simp
  have w: "errWrap (External ''connection refused'') ''sync prometheusrule failed''
             = Wrap (External ''connection refused'') ''sync prometheusrule failed''"
    by (simp add: errWrap_def)
  have c2: "calls ?c2 = [(VGet, KSecret), (VCreate, KSecret), (VGet, KPrometheusRule)]"
    "AlertmanagerConfigs ?c2 = Map.empty"
    by (simp_all add: rules_down_secret rules_down_rule)
  have n1: "snd (syncEmailSecret example_sync rules_down empty_cluster high_cpu_resolved) = None"
    by (simp add: rules_down_secret)
  have n2: "snd (syncPrometheusRule example_sync rules_down ?c1 high_cpu_resolved)
              = Some (External ''connection refused'')"
    by (simp add: rules_down_secret rules_down_rule)
  from syncMonitorAlertRule_stages [OF cl s1 s2 s3]
  have "syncMonitorAlertRule example_sync rules_down empty_cluster high_cpu_resolved
          = (?c2, Some (errWrap (External ''connection refused'') ''sync prometheusrule failed''))"
    by blast
  with cl n1 n2 w c2 show ?thesis
    by simp
qed

subsection \<open>Deleting the remote resources\<close>

lemma Delete_result:
  "snd (Delete io k sel put c key)
     = (case fault io VDelete k of
          Some err \<Rightarrow> Some err
        | None \<Rightarrow> (case sel c key of None \<Rightarrow> Some NotFound | Some obj \<Rightarrow> None))"
  by (simp add: Delete_def Let_def split: option.splits)

lemma Delete_fault:
  "fault io VDelete k = Some err \<Longrightarrow> Delete io k sel put c key = (called VDelete k c, Some err)"
  by (simp add: Delete_def Let_def)

lemma Delete_absent:
  "fault io VDelete k = None \<Longrightarrow> sel c key = None
     \<Longrightarrow> Delete io k sel put c key = (called VDelete k c, Some NotFound)"
  by (simp add: Delete_def Let_def)

lemma otherFailure_Delete:
  "otherFailure (snd (Delete io k sel put c key))
     \<longleftrightarrow> (\<exists>err. fault io VDelete k = Some err \<and> err \<noteq> NotFound)"
  by (auto simp: Delete_result otherFailure_def IsNotFound_def split: option.splits)

text \<open>
  C8 as amended.  With the client of the cluster at hand: when each of the two deletions
  (evaluation rule, routing resource) is answered without error or with \<open>not found\<close>,
  \<open>deleteMonitorAlertRule\<close> goes on to the removal of the silence and returns what that
  returns; any other failure of the first deletion is returned as it is, before the
  second deletion is asked for, and any other failure of the second deletion is returned
  as it is.  In particular, when both resources are absent, the cluster answers the two
  deletions and the removal of the silence succeeds, the result is \<open>nil\<close> and the stores
  are as before.
\<close>

theorem deleteMonitorAlertRule_not_found:
  assumes cl: "ClientOf io (Cluster r) = None"
  shows "(fault io VDelete KPrometheusRule \<in> {None, Some NotFound} \<longrightarrow>
          fault io VDelete KAlertmanagerConfig \<in> {None, Some NotFound} \<longrightarrow>
            snd (deleteMonitorAlertRule io c r) = deleteSilenceIfExist io (Namespace r) (Name r))
       \<and> (\<forall>err. fault io VDelete KPrometheusRule = Some err \<longrightarrow> err \<noteq> NotFound \<longrightarrow>
            deleteMonitorAlertRule io c r = (called VDelete KPrometheusRule c, Some err))
       \<and> (\<forall>err. fault io VDelete KPrometheusRule \<in> {None, Some NotFound} \<longrightarrow>
            fault io VDelete KAlertmanagerConfig = Some err \<longrightarrow> err \<noteq> NotFound \<longrightarrow>
            snd (deleteMonitorAlertRule io c r) = Some err)
       \<and> (PrometheusRules c (Namespace r, Name r) = None \<longrightarrow>
          AlertmanagerConfigs c (Namespace r, Name r) = None \<longrightarrow>
          fault io VDelete KPrometheusRule = None \<longrightarrow> fault io VDelete KAlertmanagerConfig = None \<longrightarrow>
          deleteSilenceIfExist io (Namespace r) (Name r) = None \<longrightarrow>
            deleteMonitorAlertRule io c r
              = (c\<lparr>calls := calls c @ [(VDelete, KPrometheusRule), (VDelete, KAlertmanagerConfig),
                                        (VDelete, KSilence)]\<rparr>, None))"
proof (intro conjI allI impI)
  assume a: "fault io VDelete KPrometheusRule \<in> {None, Some NotFound}"
    and b: "fault io VDelete KAlertmanagerConfig \<in> {None, Some NotFound}"
  from a have n1: "\<And>sel put c key. \<not> otherFailure (snd (Delete io KPrometheusRule sel put c key))"
    by (auto simp: otherFailure_Delete)
  from b have n2: "\<And>sel put c key. \<not> otherFailure (snd (Delete io KAlertmanagerConfig sel put c key))"
    by (auto simp: otherFailure_Delete)
  obtain c1 e1 where d1: "Delete io KPrometheusRule PrometheusRules put_PrometheusRules c
                            (Namespace r, Name r) = (c1, e1)"
    by fastforce
  obtain c2 e2 where d2: "Delete io KAlertmanagerConfig AlertmanagerConfigs put_AlertmanagerConfigs c1
                            (Namespace r, Name r) = (c2, e2)"
    by fastforce
  from n1 [of PrometheusRules put_PrometheusRules c "(Namespace r, Name r)"] d1
  have o1: "\<not> otherFailure e1" by simp
  from n2 [of AlertmanagerConfigs put_AlertmanagerConfigs c1 "(Namespace r, Name r)"] d2
  have o2: "\<not> otherFailure e2" by simp
  show "snd (deleteMonitorAlertRule io c r) = deleteSilenceIfExist io (Namespace r) (Name r)"
    using cl d1 d2 o1 o2 by (simp add: deleteMonitorAlertRule_def)
next
  fix err assume "fault io VDelete KPrometheusRule = Some err" and "err \<noteq> NotFound"
  then show "deleteMonitorAlertRule io c r = (called VDelete KPrometheusRule c, Some err)"
    using cl by (simp add: deleteMonitorAlertRule_def Delete_fault otherFailure_def IsNotFound_def)
next
  fix err assume a: "fault io VDelete KPrometheusRule \<in> {None, Some NotFound}"
    and b: "fault io VDelete KAlertmanagerConfig = Some err" and c: "err \<noteq> NotFound"
  from a have n1: "\<And>sel put c key. \<not> otherFailure (snd (Delete io KPrometheusRule sel put c key))"
    by (auto simp: otherFailure_Delete)
  obtain c1 e1 where d1: "Delete io KPrometheusRule PrometheusRules put_PrometheusRules c
                            (Namespace r, Name r) = (c1, e1)"
    by fastforce
  from n1 [of PrometheusRules put_PrometheusRules c "(Namespace r, Name r)"] d1
  have o1: "\<not> otherFailure e1" by simp
  have d2: "Delete io KAlertmanagerConfig AlertmanagerConfigs put_AlertmanagerConfigs c1
              (Namespace r, Name r) = (called VDelete KAlertmanagerConfig c1, Some err)"
    using b by (rule Delete_fault)
  have o2: "otherFailure (Some err)"
    using c by (simp add: otherFailure_def IsNotFound_def)
  show "snd (deleteMonitorAlertRule io c r) = Some err"
    using cl d1 d2 o1 o2 by (simp add: deleteMonitorAlertRule_def)
next
  assume "PrometheusRules c (Namespace r, Name r) = None"
    and "AlertmanagerConfigs c (Namespace r, Name r) = None"
    and "fault io VDelete KPrometheusRule = None" and "fault io VDelete KAlertmanagerConfig = None"
    and "deleteSilenceIfExist io (Namespace r) (Name r) = None"
  then show "deleteMonitorAlertRule io c r
              = (c\<lparr>calls := calls c @ [(VDelete, KPrometheusRule), (VDelete, KAlertmanagerConfig),
                                        (VDelete, KSilence)]\<rparr>, None)"
    using cl
    by (simp add: deleteMonitorAlertRule_def Delete_absent called_def otherFailure_def IsNotFound_def)
qed

theorem deleteMonitorAlertRule_not_found_witness:
  "ClientOf healthy (Cluster high_cpu) = None
   \<and> PrometheusRules empty_cluster (Namespace high_cpu, Name high_cpu) = None
   \<and> AlertmanagerConfigs empty_cluster (Namespace high_cpu, Name high_cpu) = None
   \<and> fault healthy VDelete KPrometheusRule = None \<and> fault healthy VDelete KAlertmanagerConfig = None
   \<and> deleteSilenceIfExist healthy (Namespace high_cpu) (Name high_cpu) = None
   \<and> deleteMonitorAlertRule healthy empty_cluster high_cpu
       = (empty_cluster\<lparr>calls := [(VDelete, KPrometheusRule), (VDelete, KAlertmanagerConfig),
                                   (VDelete, KSilence)]\<rparr>, None)
   \<and> ClientOf rules_down (Cluster high_cpu) = None
   \<and> fault rules_down VDelete KPrometheusRule = Some (External ''connection refused'')
   \<and> snd (deleteMonitorAlertRule rules_down empty_cluster high_cpu) = Some (External ''connection refused'')"
proof -
  have h: "ClientOf healthy (Cluster high_cpu) = None"
    "PrometheusRules empty_cluster (Namespace high_cpu, Name high_cpu) = None"
    "AlertmanagerConfigs empty_cluster (Namespace high_cpu, Name high_cpu) = None"
    "fault healthy VDelete KPrometheusRule = None" "fault healthy VDelete KAlertmanagerConfig = None"
    "deleteSilenceIfExist healthy (Namespace high_cpu) (Name high_cpu) = None"
    "calls empty_cluster = []"
    by (simp_all add: healthy_def empty_cluster_def)
  have k: "ClientOf rules_down (Cluster high_cpu) = None"
    "fault rules_down VDelete KPrometheusRule = Some (External ''connection refused'')"
    by (simp_all add: rules_down_def healthy_def)
  from deleteMonitorAlertRule_not_found [OF h(1), of empty_cluster]
    deleteMonitorAlertRule_not_found [OF k(1), of empty_cluster] h k
  show ?thesis
    by simp
qed

text \<open>The claim as stated fails when the removal of the silence fails: both resources
  are absent, both deletions are answered with \<open>not found\<close>, and the deletion of the rule
  ends with an error.\<close>

theorem deleteMonitorAlertRule_silence_failure:
  "PrometheusRules empty_cluster (Namespace high_cpu, Name high_cpu) = None
   \<and> AlertmanagerConfigs empty_cluster (Namespace high_cpu, Name high_cpu) = None
   \<and> fault silence_down VDelete KPrometheusRule = None
   \<and> fault silence_down VDelete KAlertmanagerConfig = None
   \<and> snd (deleteMonitorAlertRule silence_down empty_cluster high_cpu)
       = Some (External ''alertmanager unreachable'')"
  by (simp add: deleteMonitorAlertRule_def Delete_def called_def otherFailure_def IsNotFound_def
      silence_down_def healthy_def empty_cluster_def Let_def)

subsection \<open>Duplicated label matchers and severity levels\<close>

lemma addMatchers_duplicate:
  "\<not> distinct (map m_Name ms) \<or> (\<exists>m \<in> set ms. m_Name m \<in> set seen)
     \<Longrightarrow> \<exists>m \<in> set ms. addMatchers E seen q ms = Inl (DuplicatedLabelMatcher (m_String E m))"
proof (induction ms arbitrary: seen q)
  case Nil
  then show ?case by simp
next
  case (Cons a ms)
  show ?case
  proof (cases "m_Name a \<in> set seen")
    case True
    then show ?thesis by simp
  next
    case False
    with Cons.prems
    have "\<not> distinct (map m_Name ms) \<or> (\<exists>m \<in> set ms. m_Name m \<in> set (seen @ [m_Name a]))"
      by auto
    from Cons.IH [OF this, of "AddLabelMatchers E q a"] False show ?thesis
      by auto
  qed
qed

text \<open>A metric generator whose label matchers name a label twice, in whatever order, makes
  \<open>setExpr\<close> end with the error of a duplicated label matcher, once the template's
  expression has been parsed.\<close>

theorem setExpr_duplicate_matcher:
  assumes "AlertType r = AlertTypeMonitor" and "PromqlGenerator r = Some g" and "Tpl g = Some tpl"
    and "promql_New E (tpl_Expr tpl) = Inr q"
    and "\<not> distinct (map m_Name (LabelMatchers g))"
  shows "\<exists>m. snd (setExpr E r) = Some (DuplicatedLabelMatcher (m_String E m))"
proof -
  define ms where "ms = (if Namespace r \<noteq> GlobalAlertNamespace E \<and> Namespace r \<noteq> []
                          then LabelMatchers g @
                               [\<lparr>m_Type = MatchEqual E, m_Name = ''namespace'', m_Value = Namespace r\<rparr>]
                          else LabelMatchers g)"
  from assms(5) have "\<not> distinct (map m_Name ms)"
    by (simp add: ms_def)
  then obtain m where "addMatchers E [] q ms = Inl (DuplicatedLabelMatcher (m_String E m))"
    using addMatchers_duplicate [of ms "[]" E q] by blast
  with assms(1-4) have "snd (setExpr E r) = Some (DuplicatedLabelMatcher (m_String E m))"
    by (simp add: setExpr_def setExpr_switch_def Let_def ms_def)
  then show ?thesis by blast
qed

theorem setExpr_duplicate_matcher_witness:
  "AlertType high_cpu = AlertTypeMonitor
   \<and> \<not> distinct (map m_Name
        [\<lparr>m_Type = ''=~'', m_Name = ''pod'', m_Value = ''web-.*''\<rparr>,
         \<lparr>m_Type = ''='', m_Name = ''node'', m_Value = ''n1''\<rparr>,
         \<lparr>m_Type = ''='', m_Name = ''pod'', m_Value = ''db''\<rparr>])
   \<and> (\<exists>m. snd (setExpr example_env (high_cpu\<lparr>PromqlGenerator := Some
          \<lparr>Scope = ''node'', Resource = ''cpu'', Rule = ''usage'', Unit = ''percent'',
           LabelMatchers = [\<lparr>m_Type = ''=~'', m_Name = ''pod'', m_Value = ''web-.*''\<rparr>,
                            \<lparr>m_Type = ''='', m_Name = ''node'', m_Value = ''n1''\<rparr>,
                            \<lparr>m_Type = ''='', m_Name = ''pod'', m_Value = ''db''\<rparr>],
           Tpl = Some cpu_tpl\<rparr>\<rparr>))
        = Some (DuplicatedLabelMatcher (m_String example_env m)))"
proof -
  let ?g = "\<lparr>Scope = ''node'', Resource = ''cpu'', Rule = ''usage'', Unit = ''percent'',
           LabelMatchers = [\<lparr>m_Type = ''=~'', m_Name = ''pod'', m_Value = ''web-.*''\<rparr>,
                            \<lparr>m_Type = ''='', m_Name = ''node'', m_Value = ''n1''\<rparr>,
                            \<lparr>m_Type = ''='', m_Name = ''pod'', m_Value = ''db''\<rparr>],
           Tpl = Some cpu_tpl\<rparr>"
  have h1: "AlertType (high_cpu\<lparr>PromqlGenerator := Some ?g\<rparr>) = AlertTypeMonitor"
    and h0: "AlertType high_cpu = AlertTypeMonitor"
    by (simp_all add: high_cpu_def)
  have h2: "PromqlGenerator (high_cpu\<lparr>PromqlGenerator := Some ?g\<rparr>) = Some ?g"
    by simp
  have h3: "Tpl ?g = Some cpu_tpl"
    by simp
  have h4: "promql_New example_env (tpl_Expr cpu_tpl) = Inr (''node_cpu_usage'', [])"
    by (simp add: example_env_def cpu_tpl_def selector_New_def is_name_char_def isdigit_def)
  have h5: "\<not> distinct (map m_Name (LabelMatchers ?g))"
    by simp
  from setExpr_duplicate_matcher [OF h1 h2 h3 h4 h5] h0 h5 show ?thesis
    by simp
qed

lemma severityDup_None_iff:
  "severityDup seen vs = None \<longleftrightarrow>
     distinct (map Severity vs) \<and> set (map Severity vs) \<inter> set seen = {}"
  by (induction vs arbitrary: seen) auto

text \<open>\<open>checkAlertLevels\<close> passes exactly the rules with at least one level, no severity
  twice, and inhibit labels whenever there is more than one level.\<close>

theorem checkAlertLevels_passes:
  "checkAlertLevels r = None \<longleftrightarrow>
     AlertLevels r \<noteq> [] \<and> distinct (map Severity (AlertLevels r))
     \<and> (length (AlertLevels r) > 1 \<longrightarrow> InhibitLabels r \<noteq> [])"
proof (cases "severityDup [] (AlertLevels r)")
  case None
  then have "distinct (map Severity (AlertLevels r))"
    by (simp add: severityDup_None_iff)
  with None show ?thesis
    by (auto simp: checkAlertLevels_def)
next
  case (Some err)
  then have "\<not> distinct (map Severity (AlertLevels r))"
    using severityDup_None_iff [of "[]" "AlertLevels r"] by simp
  with Some show ?thesis
    by (auto simp: checkAlertLevels_def)
qed

theorem checkAlertLevels_passes_witness:
  "length (AlertLevels two_levels) > 1
   \<and> checkAlertLevels two_levels = None
   \<and> checkAlertLevels (two_levels\<lparr>InhibitLabels := []\<rparr>) = Some InhibitLabelsEmpty"
proof -
  have a: "AlertLevels two_levels \<noteq> []" "distinct (map Severity (AlertLevels two_levels))"
    "length (AlertLevels two_levels) > 1" "InhibitLabels two_levels \<noteq> []"
    by (simp_all add: two_levels_def high_cpu_resolved_def high_cpu_def)
  have b: "checkAlertLevels (two_levels\<lparr>InhibitLabels := []\<rparr>) = Some InhibitLabelsEmpty"
    by (simp add: checkAlertLevels_def two_levels_def high_cpu_resolved_def high_cpu_def)
  from checkAlertLevels_passes [of two_levels] a b show ?thesis
    by simp
qed

end
